theory Spec2Isabelle
  imports Complex_Main
begin

section \<open>Values\<close>

text \<open>
  A JavaScript number is modelled by an exact rational: rounding, infinities and
  overflow of the double format are left out; \<open>NaN\<close> is a value of its own. The values of
  a settings property are \<open>undefined\<close>, the numbers and the strings (the tests feed
  strings to the validation). A string carries its text and the number that
  JavaScript's conversion to a number gives for it, \<open>None\<close> when that is NaN; the
  conversion itself is not computed here. Other values (null, booleans, objects) are
  not modelled.
\<close>

datatype jsval = Undefined | NaN | Num rat | Str string "rat option"

fun toNumber :: "jsval \<Rightarrow> rat option" where
  "toNumber Undefined = None"
| "toNumber NaN = None"
| "toNumber (Num x) = Some x"
| "toNumber (Str t c) = c"

definition isNaN :: "jsval \<Rightarrow> bool" where
  "isNaN v = (toNumber v = None)"

text \<open>
  \<open>v <= y\<close>, \<open>v < y\<close> and \<open>q >= v\<close> with a number on one side: the other side is
  converted to a number, and a comparison with NaN is false.
\<close>

definition js_le :: "jsval \<Rightarrow> rat \<Rightarrow> bool" where
  "js_le v y = (case toNumber v of Some x \<Rightarrow> x \<le> y | None \<Rightarrow> False)"

definition js_lt :: "jsval \<Rightarrow> rat \<Rightarrow> bool" where
  "js_lt v y = (case toNumber v of Some x \<Rightarrow> x < y | None \<Rightarrow> False)"

definition js_ge :: "rat \<Rightarrow> jsval \<Rightarrow> bool" where
  "js_ge q v = (case toNumber v of Some m \<Rightarrow> q \<ge> m | None \<Rightarrow> False)"

text \<open>
  The order of two strings: by their characters, a proper prefix first. (JavaScript
  compares UTF-16 code units, here the characters are bytes; the two agree on ASCII.)
\<close>

fun textLess :: "string \<Rightarrow> string \<Rightarrow> bool" where
  "textLess [] [] = False"
| "textLess [] (y # ys) = True"
| "textLess (x # xs) [] = False"
| "textLess (x # xs) (y # ys) =
     ((of_char x :: nat) < of_char y \<or> (of_char x :: nat) = of_char y \<and> textLess xs ys)"

text \<open>
  \<open>a > b\<close>: two strings are compared as texts; otherwise both sides are converted to
  numbers.
\<close>

fun js_gt :: "jsval \<Rightarrow> jsval \<Rightarrow> bool" where
  "js_gt (Str s c) (Str t d) = textLess t s"
| "js_gt a b =
     (case toNumber a of
        None \<Rightarrow> False
      | Some x \<Rightarrow> (case toNumber b of None \<Rightarrow> False | Some y \<Rightarrow> x > y))"

text \<open>
  A property of an object: absent (\<open>None\<close>) or present with a value, which may be
  \<open>undefined\<close>. Reading an absent property gives \<open>undefined\<close>.
\<close>

type_synonym property = "jsval option"

definition valueOf :: "property \<Rightarrow> jsval" where
  "valueOf p = (case p of Some v \<Rightarrow> v | None \<Rightarrow> Undefined)"

section \<open>Data model\<close>

text \<open>\<open>Settings = RawSettings & ContentHeightSetting & MinQuantitySetting & MaxQuantitySetting\<close>\<close>

record Settings =
  contentHeight :: property
  buffer :: property
  debounce :: property
  throttle :: property
  minQuantity :: property
  maxQuantity :: property

text \<open>The settings after \<open>mergeAndValidateSettings\<close>: four numbers.\<close>

record MergedSettings =
  mContentHeight :: rat
  mBuffer :: rat
  mDebounce :: rat
  mThrottle :: rat

text \<open>
  A wheel or resize event: each delta is a number, or \<open>None\<close> when the event has no
  such property.
\<close>

record MotionEvent =
  deltaX :: "rat option"
  deltaY :: "rat option"
  deltaZ :: "rat option"

datatype RawLoadInstruction = RawLoadInstruction (rawQuantity: "rat option")

datatype Content = Content (sortOf: "rat list")

record ChainedLoadInstruction =
  quantity :: rat
  after :: "rat list"

text \<open>
  The eight strings thrown by the validation of the chained engine, as a datatype;
  \<open>message\<close> gives the string.
\<close>

datatype error =
    MissingContentHeight
  | InvalidContentHeight
  | NonPositiveContentHeight
  | InvalidMinQuantity
  | NegativeMinQuantity
  | InvalidMaxQuantity
  | MaxQuantityBelowOne
  | MinExceedsMax

fun message :: "error \<Rightarrow> string" where
  "message MissingContentHeight = ''contentHeight must be defined''"
| "message InvalidContentHeight = ''contentHeight must be a number''"
| "message NonPositiveContentHeight = ''contentHeight must be greater than 0''"
| "message InvalidMinQuantity = ''minQuantity must be a number''"
| "message NegativeMinQuantity = ''minQuantity must be greater than or equal to 0''"
| "message InvalidMaxQuantity = ''maxQuantity must be a number''"
| "message MaxQuantityBelowOne = ''maxQuantity must be greater than or equal to 1''"
| "message MinExceedsMax = ''minQuantity must be lesser than or equal to maxQuantity''"

text \<open>
  The inputs of the engines are streams. A run is a trace: what is delivered, in the
  order of delivery.
  \<^item> \<open>SettingsEv s\<close>: a value of \<open>settings$\<close>.
  \<^item> \<open>ScrollOrResize burst\<close>: one emission of the debounce and throttle stage of
    \<open>getScrollOrResizeDelta\<close>. The two operators are external packages driven by
    timers; when they emit is not modelled. \<open>burst\<close> lists the scroll and resize
    events that have reached the stage since its previous emission, the ones that
    \<open>debounceAndAccumulate\<close> sums: one event when every event is forwarded on its own
    (debounce 0, events at distinct instants), several when they fall within the
    debounce period. An event that the throttle suppresses, or whose pending emission
    is discarded because a settings value replaces the stage, is in no burst.
  \<^item> \<open>ContentEv result\<close>: a value of \<open>content$\<close>.
  \<^item> \<open>DelayElapsed\<close>: the timer of \<open>timeSource.delay(20)\<close> fires for the oldest buffer
    delta still waiting.
\<close>

datatype event =
    SettingsEv Settings
  | ScrollOrResize "MotionEvent list"
  | ContentEv "Content list"
  | DelayElapsed

section \<open>The raw engine\<close>

definition DEFAULT_SETTINGS :: MergedSettings where
  "DEFAULT_SETTINGS = \<lparr>mContentHeight = 0, mBuffer = 0, mDebounce = 0, mThrottle = 0\<rparr>"

text \<open>The seed \<open>{}\<close> of \<open>settings$.fold(accumulateSettings, {})\<close>.\<close>

definition noSettings :: Settings where
  "noSettings = \<lparr>contentHeight = None, buffer = None, debounce = None,
     throttle = None, minQuantity = None, maxQuantity = None\<rparr>"

text \<open>
  One property of \<open>{...accumulator, ...current}\<close>: a property that \<open>current\<close> has wins,
  also when its value is \<open>undefined\<close>.
\<close>

definition spread :: "property \<Rightarrow> property \<Rightarrow> property" where
  "spread a c = (case c of Some v \<Rightarrow> Some v | None \<Rightarrow> a)"

definition accumulateSettings :: "Settings \<Rightarrow> Settings \<Rightarrow> Settings" where
  "accumulateSettings accumulator current =
     \<lparr>contentHeight = spread (contentHeight accumulator) (contentHeight current),
      buffer = spread (buffer accumulator) (buffer current),
      debounce = spread (debounce accumulator) (debounce current),
      throttle = spread (throttle accumulator) (throttle current),
      minQuantity = spread (minQuantity accumulator) (minQuantity current),
      maxQuantity = spread (maxQuantity accumulator) (maxQuantity current)\<rparr>"

text \<open>
  \<open>Math.max(0, settings[optionName]) || defaults[optionName]\<close>: \<open>Math.max\<close> converts to a
  number; NaN and 0 are falsy.
\<close>

definition mergeAndValidateSingleOption :: "jsval \<Rightarrow> rat \<Rightarrow> rat" where
  "mergeAndValidateSingleOption v d =
     (case toNumber v of
        Some x \<Rightarrow> (if max 0 x = 0 then d else max 0 x)
      | None \<Rightarrow> d)"

definition mergeAndValidateSettings :: "Settings \<Rightarrow> MergedSettings" where
  "mergeAndValidateSettings settings =
     \<lparr>mContentHeight =
        mergeAndValidateSingleOption (valueOf (contentHeight settings)) (mContentHeight DEFAULT_SETTINGS),
      mBuffer = mergeAndValidateSingleOption (valueOf (buffer settings)) (mBuffer DEFAULT_SETTINGS),
      mDebounce = mergeAndValidateSingleOption (valueOf (debounce settings)) (mDebounce DEFAULT_SETTINGS),
      mThrottle = mergeAndValidateSingleOption (valueOf (throttle settings)) (mThrottle DEFAULT_SETTINGS)\<rparr>"

definition isScrollingDownOrResizingToTallerWindow :: "MotionEvent \<Rightarrow> bool" where
  "isScrollingDownOrResizingToTallerWindow ev =
     (case deltaY ev of Some y \<Rightarrow> y > 0 | None \<Rightarrow> False)"

text \<open>Called behind the filter above only, where \<open>deltaY\<close> is a number.\<close>

definition makeDelta :: "MotionEvent \<Rightarrow> rat" where
  "makeDelta ev = (case deltaY ev of Some y \<Rightarrow> y | None \<Rightarrow> 0)"

text \<open>
  \<open>getScrollOrResizeDelta\<close> for one emission of the stage: the events of the burst are
  filtered and mapped to their deltas (\<open>scrollDownOrResizeToTallerDelta$\<close>), and
  \<open>debounceAndAccumulate\<close> sums what has come in, with the \<open>accumulate\<close> and the \<open>seed\<close>
  of \<open>debounceAndThrottleAsPerSettings\<close>. Without a qualifying event there is nothing
  to emit.
\<close>

definition scrollDownOrResizeToTallerDelta :: "MotionEvent list \<Rightarrow> rat list" where
  "scrollDownOrResizeToTallerDelta burst =
     map makeDelta (filter isScrollingDownOrResizingToTallerWindow burst)"

definition accumulate :: "rat \<Rightarrow> rat \<Rightarrow> rat" where
  "accumulate accumulator current = accumulator + current"

definition seed :: rat where
  "seed = 0"

definition debounceAndAccumulate :: "rat list \<Rightarrow> rat" where
  "debounceAndAccumulate ds = foldl accumulate seed ds"

definition getScrollOrResizeDelta :: "MotionEvent list \<Rightarrow> rat list" where
  "getScrollOrResizeDelta burst =
     (if scrollDownOrResizeToTallerDelta burst = [] then []
      else [debounceAndAccumulate (scrollDownOrResizeToTallerDelta burst)])"

text \<open>The raw engine's \<open>settingsAreValid\<close>, of the buffer settings.\<close>

definition settingsAreValid_raw :: "MergedSettings \<Rightarrow> bool" where
  "settingsAreValid_raw s = (mContentHeight s > 0 \<and> mBuffer s > 0)"

definition extractBuffer :: "MergedSettings \<Rightarrow> rat" where
  "extractBuffer s = mBuffer s"

definition computeDelta :: "rat \<times> rat \<Rightarrow> rat" where
  "computeDelta p = max 0 (snd p - fst p)"

definition bufferIsGreater :: "rat \<Rightarrow> bool" where
  "bufferIsGreater d = (d > 0)"

text \<open>
  \<open>getBufferDelta\<close> for one value of the settings: \<open>previous\<close> is the last value of
  \<open>buffer$\<close> (initially the 0 of \<open>startWith(0)\<close>, which \<open>pairwise\<close> pairs with the first
  valid buffer). The result is the new last value and the deltas handed to the delay.
\<close>

definition getBufferDelta :: "rat \<Rightarrow> MergedSettings \<Rightarrow> rat \<times> rat list" where
  "getBufferDelta previous s =
     (if settingsAreValid_raw s
      then (extractBuffer s, filter bufferIsGreater [computeDelta (previous, extractBuffer s)])
      else (previous, []))"

definition applySettingToValue :: "rat \<Rightarrow> rat \<Rightarrow> RawLoadInstruction" where
  "applySettingToValue ch dY =
     RawLoadInstruction (if ch > 0 then Some (of_int \<lceil>dY / ch\<rceil>) else None)"

text \<open>
  State of the raw engine: the accumulator of the fold over the settings, the value
  remembered by \<open>validSettings$\<close>, the last buffer seen by \<open>pairwise\<close>, and the buffer
  deltas inside the delay.
\<close>

record RawState =
  accumulated :: Settings
  validSettings :: MergedSettings
  previousBuffer :: rat
  delayed :: "rat list"

definition rawInit :: RawState where
  "rawInit = \<lparr>accumulated = noSettings, validSettings = DEFAULT_SETTINGS,
     previousBuffer = 0, delayed = []\<rparr>"

definition rawSettings :: "RawState \<Rightarrow> Settings \<Rightarrow> RawState" where
  "rawSettings r s =
     (let acc = accumulateSettings (accumulated r) s;
          v = mergeAndValidateSettings acc;
          bd = getBufferDelta (previousBuffer r) v
      in \<lparr>accumulated = acc, validSettings = v, previousBuffer = fst bd,
          delayed = delayed r @ snd bd\<rparr>)"

text \<open>
  \<open>computeLoadInstruction\<close>: what the stage, or the delay of the buffer, emits is
  converted with the contentHeight that is current at that moment.
\<close>

definition rawStep :: "RawState \<Rightarrow> event \<Rightarrow> RawState \<times> RawLoadInstruction list" where
  "rawStep r e =
     (case e of
        SettingsEv s \<Rightarrow> (rawSettings r s, [])
      | ScrollOrResize burst \<Rightarrow>
          (r, map (applySettingToValue (mContentHeight (validSettings r)))
                (getScrollOrResizeDelta burst))
      | ContentEv b \<Rightarrow> (r, [])
      | DelayElapsed \<Rightarrow>
          (case delayed r of
             [] \<Rightarrow> (r, [])
           | d # ds \<Rightarrow>
               (r\<lparr>delayed := ds\<rparr>, [applySettingToValue (mContentHeight (validSettings r)) d])))"

fun rawRun :: "RawState \<Rightarrow> event list \<Rightarrow> RawLoadInstruction list" where
  "rawRun r [] = []"
| "rawRun r (e # es) = snd (rawStep r e) @ rawRun (fst (rawStep r e)) es"

section \<open>The chained engine\<close>

subsection \<open>Validation of the settings\<close>

text \<open>
  The checks throw; a function that may throw returns \<open>error + bool\<close>. \<open>andAlso\<close> is
  JavaScript's \<open>&&\<close> over such results: the right operand is evaluated only when the
  left one returned true. \<open>settingsAreValid\<close> reads the three properties of the settings
  value it is given (the destructuring of its parameter).
\<close>

definition isContentHeightValid :: "jsval \<Rightarrow> error + bool" where
  "isContentHeightValid ch =
     (if ch = Undefined then Inl MissingContentHeight
      else if isNaN ch then Inl InvalidContentHeight
      else if js_le ch 0 then Inl NonPositiveContentHeight
      else Inr True)"

definition isMinQuantityValid :: "jsval \<Rightarrow> error + bool" where
  "isMinQuantityValid mn =
     (if mn = Undefined then Inr True
      else if isNaN mn then Inl InvalidMinQuantity
      else if js_lt mn 0 then Inl NegativeMinQuantity
      else Inr True)"

definition isMaxQuantityValid :: "jsval \<Rightarrow> error + bool" where
  "isMaxQuantityValid mx =
     (if mx = Undefined then Inr True
      else if isNaN mx then Inl InvalidMaxQuantity
      else if js_lt mx 1 then Inl MaxQuantityBelowOne
      else Inr True)"

definition areMinAndMaxCompatible :: "jsval \<Rightarrow> jsval \<Rightarrow> error + bool" where
  "areMinAndMaxCompatible mn mx =
     (if mn = Undefined \<or> mx = Undefined then Inr True
      else if js_gt mn mx then Inl MinExceedsMax
      else Inr True)"

fun andAlso :: "error + bool \<Rightarrow> error + bool \<Rightarrow> error + bool" where
  "andAlso (Inl e) r = Inl e"
| "andAlso (Inr False) r = Inr False"
| "andAlso (Inr True) r = r"

definition settingsAreValid :: "Settings \<Rightarrow> error + bool" where
  "settingsAreValid s =
     andAlso (isContentHeightValid (valueOf (contentHeight s)))
       (andAlso (isMinQuantityValid (valueOf (minQuantity s)))
          (andAlso (isMaxQuantityValid (valueOf (maxQuantity s)))
             (areMinAndMaxCompatible (valueOf (minQuantity s)) (valueOf (maxQuantity s)))))"

definition settingsAreInvalid :: "Settings \<Rightarrow> error + bool" where
  "settingsAreInvalid s = map_sum id Not (settingsAreValid s)"

text \<open>
  \<open>spotInvalidSettings\<close>: an exception thrown by the predicate of \<open>filter\<close> becomes the
  error of the stream; a value for which the predicate is false is dropped. The
  predicate is never true (lemma \<open>settingsAreInvalid_never_true\<close>: every check returns
  true or throws), so that nothing reaches the \<open>map\<close> and the \<open>flatten\<close> behind the filter.
\<close>

definition spotInvalidSettings :: "Settings \<Rightarrow> error option" where
  "spotInvalidSettings s =
     (case settingsAreInvalid s of Inl e \<Rightarrow> Some e | Inr b \<Rightarrow> None)"

subsection \<open>The accumulator\<close>

definition extractQuantity :: "RawLoadInstruction \<Rightarrow> rat option" where
  "extractQuantity i = rawQuantity i"

definition quantityIsPositive :: "rat \<Rightarrow> bool" where
  "quantityIsPositive q = (q > 0)"

text \<open>\<open>getQuantityToAdd\<close>: \<open>undefined > 0\<close> is false, an instruction without quantity is dropped.\<close>

definition getQuantityToAdd :: "RawLoadInstruction list \<Rightarrow> rat list" where
  "getQuantityToAdd is =
     concat (map (\<lambda>i. case extractQuantity i of
                          None \<Rightarrow> []
                        | Some q \<Rightarrow> (if quantityIsPositive q then [q] else [])) is)"

definition getQuantityToRemove :: "ChainedLoadInstruction \<Rightarrow> rat" where
  "getQuantityToRemove i = - quantity i"

definition accumulateQuantities :: "rat \<Rightarrow> rat \<Rightarrow> rat" where
  "accumulateQuantities accumulator current = accumulator + current"

text \<open>
  \<open>filterStreamWithMinQuantity\<close>: with a minQuantity the stream is filtered by
  \<open>quantity >= minQuantity\<close>, without one it is passed on as it is.
\<close>

definition filterStreamWithMinQuantity :: "jsval \<Rightarrow> rat \<Rightarrow> bool" where
  "filterStreamWithMinQuantity mn q = (if mn \<noteq> Undefined then js_ge q mn else True)"

definition hasContent :: "Content list \<Rightarrow> bool" where
  "hasContent result = (length result > 0)"

text \<open>Called behind the filter \<open>hasContent\<close> only.\<close>

definition getLastContentSortAttribute :: "Content list \<Rightarrow> rat list" where
  "getLastContentSortAttribute result = sortOf (last result)"

definition isValidSortAttribute :: "rat list \<Rightarrow> bool" where
  "isValidSortAttribute srt = (length srt > 0)"

definition makeLoadInstruction :: "rat \<times> rat list \<Rightarrow> ChainedLoadInstruction" where
  "makeLoadInstruction p = \<lparr>quantity = fst p, after = snd p\<rparr>"

definition capWithQuantity :: "rat \<Rightarrow> ChainedLoadInstruction \<Rightarrow> ChainedLoadInstruction" where
  "capWithQuantity mx loadInstruction = loadInstruction\<lparr>quantity := min (quantity loadInstruction) mx\<rparr>"

definition capStreamWithMaxQuantity :: "rat option \<Rightarrow> ChainedLoadInstruction \<Rightarrow> ChainedLoadInstruction" where
  "capStreamWithMaxQuantity mx i = (case mx of Some m \<Rightarrow> capWithQuantity m i | None \<Rightarrow> i)"

text \<open>
  State of the chained engine.
  \<^item> \<open>raw\<close>: the raw engine inside \<open>getQuantityToAdd\<close>.
  \<^item> \<open>remaining\<close>: the accumulator of the fold in \<open>computeRemainingQuantityToLoad\<close>.
  \<^item> \<open>started\<close>: a settings value has arrived, so that the two \<open>flatten\<close> of
    \<open>applyMinQuantity\<close> and \<open>applyMaxQuantity\<close> have an inner stream; before that nothing
    listens to \<open>remainingQuantityToLoad$\<close> behind the floor, nor to \<open>content$\<close>.
  \<^item> \<open>minQ\<close>, \<open>maxQ\<close>: the minQuantity and the ceiling of the current inner streams.
  \<^item> \<open>quantityLatest\<close>, \<open>quantityFresh\<close>, \<open>afterLatest\<close>, \<open>afterFresh\<close>: the operator
    \<open>combineUnique\<close> (package xstream-combine-unique). It keeps the latest value of each
    input and emits the pair when every input has delivered a value since the previous
    emission; an emission uses up both values. The tests of the repository fix this
    behaviour (see the lemmas on the tests below).
  \<^item> \<open>failure\<close>: the error that ended the output stream.
\<close>

record ChainedState =
  raw :: RawState
  remaining :: rat
  started :: bool
  minQ :: jsval
  maxQ :: "rat option"
  quantityLatest :: "rat option"
  quantityFresh :: bool
  afterLatest :: "rat list"
  afterFresh :: bool
  failure :: "error option"

text \<open>\<open>afterLatest = []\<close>, fresh: the \<open>startWith([])\<close> of \<open>getAfter\<close>.\<close>

definition chainedInit :: ChainedState where
  "chainedInit = \<lparr>raw = rawInit, remaining = 0, started = False, minQ = Undefined, maxQ = None,
     quantityLatest = None, quantityFresh = False, afterLatest = [], afterFresh = True,
     failure = None\<rparr>"

text \<open>
  \<open>computeRemainingQuantityToLoad\<close> and \<open>applyMinQuantity\<close> for one value of the merged
  stream of quantities to add and to remove: the fold, the filter \<open>quantityIsPositive\<close>,
  the floor; what passes becomes the latest quantity of \<open>combineUnique\<close>.
\<close>

definition computeRemainingQuantityToLoad :: "ChainedState \<Rightarrow> rat \<Rightarrow> ChainedState" where
  "computeRemainingQuantityToLoad c x =
     (let r = accumulateQuantities (remaining c) x;
          c1 = c\<lparr>remaining := r\<rparr>
      in if quantityIsPositive r \<and> started c \<and> filterStreamWithMinQuantity (minQ c) r
         then c1\<lparr>quantityLatest := Some r, quantityFresh := True\<rparr>
         else c1)"

text \<open>
  \<open>getLoadInstruction\<close>, \<open>applyMaxQuantity\<close> and the feedback loop
  (\<open>loadInstructionImitation$\<close>, \<open>getQuantityToRemove\<close>): when both inputs are fresh the
  pair is emitted, capped; the capped quantity goes back, negated, into the fold during
  the emission. The value that the fold then produces reaches \<open>combineUnique\<close> while
  the cursor is used up, so the feedback itself never emits.
\<close>

definition getLoadInstruction :: "ChainedState \<Rightarrow> ChainedState \<times> ChainedLoadInstruction list" where
  "getLoadInstruction c =
     (case quantityLatest c of
        None \<Rightarrow> (c, [])
      | Some q \<Rightarrow>
          (if quantityFresh c \<and> afterFresh c
           then (let i = capStreamWithMaxQuantity (maxQ c) (makeLoadInstruction (q, afterLatest c));
                     c1 = c\<lparr>quantityFresh := False, afterFresh := False\<rparr>
                 in (computeRemainingQuantityToLoad c1 (getQuantityToRemove i), [i]))
           else (c, [])))"

fun addQuantities :: "ChainedState \<Rightarrow> rat list \<Rightarrow> ChainedState \<times> ChainedLoadInstruction list" where
  "addQuantities c [] = (c, [])"
| "addQuantities c (q # qs) =
     (let (c1, out1) = getLoadInstruction (computeRemainingQuantityToLoad c q);
          (c2, out2) = addQuantities c1 qs
      in (c2, out1 @ out2))"

definition getAfter :: "ChainedState \<Rightarrow> Content list \<Rightarrow> ChainedState \<times> ChainedLoadInstruction list" where
  "getAfter c result =
     (if started c \<and> hasContent result \<and> isValidSortAttribute (getLastContentSortAttribute result)
      then getLoadInstruction (c\<lparr>afterLatest := getLastContentSortAttribute result, afterFresh := True\<rparr>)
      else (c, []))"

text \<open>
  The ceiling of \<open>capStreamWithMaxQuantity\<close> for a maxQuantity: none when it is
  \<open>undefined\<close>, else the number it converts to in \<open>Math.min\<close>. A maxQuantity that converts
  to NaN fails the validation in the delivery that brings it, and nothing is emitted
  after that, so that no instruction is ever capped with it.
\<close>

definition extractLimit :: "jsval \<Rightarrow> rat option" where
  "extractLimit v = toNumber v"

text \<open>
  \<open>applyMinQuantity\<close> for one value of \<open>minQuantitySetting$\<close>: \<open>flatten\<close> leaves the inner
  stream it had and subscribes to the new one. Without minQuantity the new inner
  stream is \<open>$\<close> itself, which is running already: the subscription delivers nothing.
  With a minQuantity it is \<open>$.filter(...)\<close>. \<open>$\<close> is a filter (\<open>quantityIsPositive\<close>) of
  the fold; xstream makes of a filter of a filter one filter, with both predicates, on
  the source of the first, and the stream of the fold remembers its last value and
  hands it to a new subscriber. So a settings value with a minQuantity offers the
  pending surplus again, through the new floor; it reaches \<open>combineUnique\<close> once that is
  running. No test of the repository has a pending surplus at a settings value.
\<close>

definition applyMinQuantity :: "ChainedState \<Rightarrow> jsval \<Rightarrow> ChainedState \<times> ChainedLoadInstruction list" where
  "applyMinQuantity c mn =
     (let c1 = c\<lparr>minQ := mn\<rparr>
      in if mn \<noteq> Undefined \<and> quantityIsPositive (remaining c1) \<and> started c1
            \<and> filterStreamWithMinQuantity (minQ c1) (remaining c1)
         then getLoadInstruction (c1\<lparr>quantityLatest := Some (remaining c1), quantityFresh := True\<rparr>)
         else (c1, []))"

text \<open>
  \<open>applyMaxQuantity\<close> for one value of \<open>maxQuantitySetting$\<close>: the new inner stream caps
  with the new maxQuantity. The first inner stream is the first subscriber of
  \<open>loadInstruction$\<close>: it starts \<open>combineUnique\<close>, which subscribes to the floor and to
  \<open>getAfter(content$)\<close>.
\<close>

definition applyMaxQuantity :: "ChainedState \<Rightarrow> jsval \<Rightarrow> ChainedState" where
  "applyMaxQuantity c mx = c\<lparr>maxQ := extractLimit mx, started := True\<rparr>"

text \<open>
  A value of \<open>settings$\<close> in the chained engine. The listeners of \<open>settings$\<close> are served
  in the order of their subscription: the raw engine (in \<open>step\<close>), the floor, the
  ceiling, the validation.
\<close>

definition applySettings :: "ChainedState \<Rightarrow> Settings \<Rightarrow> ChainedState \<times> ChainedLoadInstruction list" where
  "applySettings c s =
     (let (c1, out) = applyMinQuantity c (valueOf (minQuantity s));
          c2 = applyMaxQuantity c1 (valueOf (maxQuantity s))
      in (c2\<lparr>failure := spotInvalidSettings s\<rparr>, out))"

text \<open>One event of the trace. After an error the output stream is closed.\<close>

definition step :: "ChainedState \<Rightarrow> event \<Rightarrow> ChainedState \<times> ChainedLoadInstruction list" where
  "step c e =
     (if failure c \<noteq> None then (c, [])
      else
        (let (r, is) = rawStep (raw c) e;
             (c1, out) = addQuantities (c\<lparr>raw := r\<rparr>) (getQuantityToAdd is)
         in case e of
              SettingsEv s \<Rightarrow> (fst (applySettings c1 s), out @ snd (applySettings c1 s))
            | ContentEv result \<Rightarrow> getAfter c1 result
            | ScrollOrResize burst \<Rightarrow> (c1, out)
            | DelayElapsed \<Rightarrow> (c1, out)))"

fun exec :: "ChainedState \<Rightarrow> event list \<Rightarrow> ChainedState" where
  "exec c [] = c"
| "exec c (e # es) = exec (fst (step c e)) es"

fun emitted :: "ChainedState \<Rightarrow> event list \<Rightarrow> ChainedLoadInstruction list" where
  "emitted c [] = []"
| "emitted c (e # es) = snd (step c e) @ emitted (fst (step c e)) es"

text \<open>\<open>getChainedLoadInstruction\<close> on a trace: the instructions emitted and the error, if any.\<close>

definition getChainedLoadInstruction :: "event list \<Rightarrow> ChainedLoadInstruction list \<times> error option" where
  "getChainedLoadInstruction es = (emitted chainedInit es, failure (exec chainedInit es))"

subsection \<open>The entry point of the raw engine\<close>

text \<open>
  \<open>getRawLoadInstruction({ scroll$, resize$ }, settings$?)\<close>: each of the three streams
  may be missing. A stream is the list of its events, \<open>never\<close> has none. A schedule
  says what happens next: a source delivers its next event (a source that has nothing
  left delivers nothing), or a timer fires. The scroll and resize events wait in the
  debounce stage (\<open>pending\<close>); \<open>FromDebounce passes\<close> is its timer, which emits their sum
  if the throttle lets it pass; a settings value replaces the stage and what waits in
  it is lost. \<open>FromTimer\<close> is the timer of the delay of the buffer.
\<close>

record Events =
  scroll :: "MotionEvent list option"
  resize :: "MotionEvent list option"

datatype source = FromScroll | FromResize | FromSettings | FromDebounce bool | FromTimer

definition never :: "'a list" where
  "never = []"

text \<open>\<open>Stream.merge(scroll$ || Stream.never(), resize$ || Stream.never())\<close>; the schedule merges.\<close>

definition makeValidScrollOrResize :: "Events \<Rightarrow> MotionEvent list \<times> MotionEvent list" where
  "makeValidScrollOrResize events =
     ((case scroll events of Some s \<Rightarrow> s | None \<Rightarrow> never),
      (case resize events of Some s \<Rightarrow> s | None \<Rightarrow> never))"

text \<open>
  Without \<open>settings$\<close> the stream of settings holds \<open>DEFAULT_SETTINGS\<close> only, which is
  the value of \<open>rawInit\<close>; no update ever follows.
\<close>

definition makeValidSettings :: "Settings list option \<Rightarrow> Settings list" where
  "makeValidSettings settings = (case settings of Some s \<Rightarrow> s | None \<Rightarrow> never)"

fun deliver ::
  "source list \<Rightarrow> MotionEvent list \<Rightarrow> MotionEvent list \<Rightarrow> MotionEvent list \<Rightarrow> Settings list
     \<Rightarrow> event list" where
  "deliver [] pending sc rz st = []"
| "deliver (FromTimer # ss) pending sc rz st = DelayElapsed # deliver ss pending sc rz st"
| "deliver (FromDebounce passes # ss) pending sc rz st =
     (if passes \<and> pending \<noteq> [] then [ScrollOrResize pending] else []) @ deliver ss [] sc rz st"
| "deliver (FromScroll # ss) pending [] rz st = deliver ss pending [] rz st"
| "deliver (FromScroll # ss) pending (x # sc) rz st = deliver ss (pending @ [x]) sc rz st"
| "deliver (FromResize # ss) pending sc [] st = deliver ss pending sc [] st"
| "deliver (FromResize # ss) pending sc (x # rz) st = deliver ss (pending @ [x]) sc rz st"
| "deliver (FromSettings # ss) pending sc rz [] = deliver ss pending sc rz []"
| "deliver (FromSettings # ss) pending sc rz (x # st) = SettingsEv x # deliver ss [] sc rz st"

definition getRawLoadInstruction ::
  "Events \<Rightarrow> Settings list option \<Rightarrow> source list \<Rightarrow> RawLoadInstruction list" where
  "getRawLoadInstruction events settings schedule =
     rawRun rawInit
       (deliver schedule [] (fst (makeValidScrollOrResize events))
          (snd (makeValidScrollOrResize events)) (makeValidSettings settings))"

section \<open>Vocabulary of the properties\<close>

text \<open>Events of the scenarios.\<close>

text \<open>
  The settings objects of the tests are written as literals: a property is absent
  when no value is written for it (\<open>Undefined\<close> below), present otherwise.
\<close>

definition given :: "jsval \<Rightarrow> property" where
  "given v = (if v = Undefined then None else Some v)"

definition settingsOf :: "jsval \<Rightarrow> jsval \<Rightarrow> jsval \<Rightarrow> jsval \<Rightarrow> event" where
  "settingsOf ch bf mn mx =
     SettingsEv \<lparr>contentHeight = given ch, buffer = given bf, debounce = None, throttle = None,
       minQuantity = given mn, maxQuantity = given mx\<rparr>"

text \<open>A scroll event that the debounce and throttle stage forwards on its own.\<close>

definition scrollBy :: "rat \<Rightarrow> event" where
  "scrollBy d = ScrollOrResize [\<lparr>deltaX = None, deltaY = Some d, deltaZ = None\<rparr>]"

text \<open>A fetch has completed: a batch whose last item carries the sort key \<open>k\<close>.\<close>

definition fetched :: "rat list \<Rightarrow> event" where
  "fetched k = ContentEv [Content k]"

fun isSettingsEv :: "event \<Rightarrow> bool" where
  "isSettingsEv (SettingsEv s) = True"
| "isSettingsEv e = False"

fun isContentEv :: "event \<Rightarrow> bool" where
  "isContentEv (ContentEv b) = True"
| "isContentEv e = False"

text \<open>A content batch that gives a new cursor.\<close>

fun advancesCursor :: "event \<Rightarrow> bool" where
  "advancesCursor (ContentEv b) = (hasContent b \<and> isValidSortAttribute (getLastContentSortAttribute b))"
| "advancesCursor e = False"

text \<open>The cursors given by the content batches of a trace, in order.\<close>

fun cursorValues :: "event list \<Rightarrow> rat list list" where
  "cursorValues [] = []"
| "cursorValues (ContentEv b # es) =
     (if advancesCursor (ContentEv b) then getLastContentSortAttribute b # cursorValues es
      else cursorValues es)"
| "cursorValues (e # es) = cursorValues es"

text \<open>Neither a motion event nor a settings value: a timer or a content batch.\<close>

fun timerOrContent :: "event \<Rightarrow> bool" where
  "timerOrContent DelayElapsed = True"
| "timerOrContent (ContentEv b) = True"
| "timerOrContent e = False"

text \<open>
  The cursor as the specification words it: the last item's sort key of the most recent
  non-empty content batch received so far, or the empty tuple.
\<close>

fun specCursor :: "rat list \<Rightarrow> event list \<Rightarrow> rat list" where
  "specCursor k [] = k"
| "specCursor k (ContentEv b # es) = specCursor (if b \<noteq> [] then sortOf (last b) else k) es"
| "specCursor k (e # es) = specCursor k es"

text \<open>
  The cursor of the engine: the last item's sort key of the most recent batch, among
  those received after the first settings value, that is not empty and whose last item
  has a sort key that is not empty; the empty tuple if there is none. \<open>listening\<close> says
  whether a settings value has arrived.
\<close>

fun cursorFrom :: "bool \<Rightarrow> rat list \<Rightarrow> event list \<Rightarrow> rat list" where
  "cursorFrom listening k [] = k"
| "cursorFrom listening k (SettingsEv s # es) = cursorFrom True k es"
| "cursorFrom listening k (ContentEv b # es) =
     cursorFrom listening (if listening \<and> b \<noteq> [] \<and> sortOf (last b) \<noteq> [] then sortOf (last b) else k) es"
| "cursorFrom listening k (e # es) = cursorFrom listening k es"

definition cursorOf :: "event list \<Rightarrow> rat list" where
  "cursorOf es = cursorFrom False [] es"

text \<open>
  The gate as the specification words it: the candidate pair of pending surplus and
  cursor is emitted unless it is identical to the pair emitted immediately before.
\<close>

definition dedupGate :: "(rat \<times> rat list) option \<Rightarrow> rat \<times> rat list \<Rightarrow> bool" where
  "dedupGate previous candidate = (previous \<noteq> Some candidate)"

text \<open>
  The hard validation as the specification lists it: eight checks in a fixed order,
  the first one that fails gives the error. A property is missing when reading it
  gives \<open>undefined\<close>, and \<open>>\<close> is JavaScript's.
\<close>

fun firstFailing :: "(bool \<times> error) list \<Rightarrow> error option" where
  "firstFailing [] = None"
| "firstFailing ((failing, e) # checks) = (if failing then Some e else firstFailing checks)"

definition hardValidation :: "Settings \<Rightarrow> error option" where
  "hardValidation s =
     firstFailing
       [(valueOf (contentHeight s) = Undefined, MissingContentHeight),
        (isNaN (valueOf (contentHeight s)), InvalidContentHeight),
        (js_le (valueOf (contentHeight s)) 0, NonPositiveContentHeight),
        (valueOf (minQuantity s) \<noteq> Undefined \<and> isNaN (valueOf (minQuantity s)), InvalidMinQuantity),
        (valueOf (minQuantity s) \<noteq> Undefined \<and> js_lt (valueOf (minQuantity s)) 0, NegativeMinQuantity),
        (valueOf (maxQuantity s) \<noteq> Undefined \<and> isNaN (valueOf (maxQuantity s)), InvalidMaxQuantity),
        (valueOf (maxQuantity s) \<noteq> Undefined \<and> js_lt (valueOf (maxQuantity s)) 1, MaxQuantityBelowOne),
        (valueOf (minQuantity s) \<noteq> Undefined \<and> valueOf (maxQuantity s) \<noteq> Undefined
           \<and> js_gt (valueOf (minQuantity s)) (valueOf (maxQuantity s)), MinExceedsMax)]"

text \<open>Both inputs of \<open>combineUnique\<close> are fresh: it emits.\<close>

definition emits :: "ChainedState \<Rightarrow> bool" where
  "emits c = (quantityFresh c \<and> afterFresh c \<and> quantityLatest c \<noteq> None)"

text \<open>The event is a content batch that the running engine takes as its new cursor.\<close>

definition accepted :: "ChainedState \<Rightarrow> event \<Rightarrow> bool" where
  "accepted c e = (failure c = None \<and> started c \<and> advancesCursor e)"

text \<open>
  The event renews the surplus: a value of the pending surplus passes the floor and
  reaches the running \<open>combineUnique\<close>, either because the raw engine adds a quantity
  or because a settings value with a minQuantity replaces the floor.
\<close>

definition renews :: "ChainedState \<Rightarrow> event \<Rightarrow> bool" where
  "renews c e =
     (started c \<and>
      (case e of
         SettingsEv s \<Rightarrow>
           valueOf (minQuantity s) \<noteq> Undefined \<and> 0 < remaining c
           \<and> filterStreamWithMinQuantity (valueOf (minQuantity s)) (remaining c)
       | _ \<Rightarrow>
           getQuantityToAdd (snd (rawStep (raw c) e)) \<noteq> []
           \<and> 0 < remaining c + sum_list (getQuantityToAdd (snd (rawStep (raw c) e)))
           \<and> filterStreamWithMinQuantity (minQ c)
                 (remaining c + sum_list (getQuantityToAdd (snd (rawStep (raw c) e))))))"

text \<open>The pending surplus of the state passes the floor of the running engine.\<close>

definition passesFloor :: "ChainedState \<Rightarrow> bool" where
  "passesFloor c =
     (started c \<and> 0 < remaining c \<and> filterStreamWithMinQuantity (minQ c) (remaining c))"



text \<open>
  Two consecutive instructions with the same cursor and the same quantity.
\<close>

fun consecutiveRepeat :: "ChainedLoadInstruction list \<Rightarrow> bool" where
  "consecutiveRepeat (i # j # is) =
     ((after i = after j \<and> quantity i = quantity j) \<or> consecutiveRepeat (j # is))"
| "consecutiveRepeat is = False"

section \<open>The tests of the repository\<close>

lemmas engine_defs =
  getChainedLoadInstruction_def step_def rawStep_def rawSettings_def rawInit_def chainedInit_def
  applySettings_def getAfter_def getLoadInstruction_def computeRemainingQuantityToLoad_def
  capStreamWithMaxQuantity_def capWithQuantity_def makeLoadInstruction_def extractLimit_def
  isValidSortAttribute_def getLastContentSortAttribute_def hasContent_def
  filterStreamWithMinQuantity_def accumulateQuantities_def getQuantityToRemove_def
  getQuantityToAdd_def quantityIsPositive_def extractQuantity_def spotInvalidSettings_def
  settingsAreInvalid_def settingsAreValid_def areMinAndMaxCompatible_def isMaxQuantityValid_def
  isMinQuantityValid_def isContentHeightValid_def applySettingToValue_def getBufferDelta_def
  bufferIsGreater_def computeDelta_def extractBuffer_def settingsAreValid_raw_def makeDelta_def
  isScrollingDownOrResizingToTallerWindow_def mergeAndValidateSettings_def
  mergeAndValidateSingleOption_def accumulateSettings_def spread_def noSettings_def
  DEFAULT_SETTINGS_def settingsOf_def scrollBy_def fetched_def given_def valueOf_def isNaN_def
  js_le_def js_lt_def js_ge_def applyMinQuantity_def applyMaxQuantity_def
  getScrollOrResizeDelta_def scrollDownOrResizeToTallerDelta_def debounceAndAccumulate_def
  accumulate_def seed_def

text \<open>
  \<open>should return load instructions according to scroll or resize events\<close>
  (chained.test.ts): the batch that lands after the first instruction does not release
  the quantity 4 again, and the scroll of 50 waits for the next batch.
\<close>

lemma test_scroll_or_resize:
  "getChainedLoadInstruction
     [settingsOf (Num 50) Undefined Undefined Undefined,
      scrollBy 200,
      ContentEv [Content [535 / 100], Content [5], Content [481 / 100], Content [48 / 10]],
      scrollBy 150, scrollBy 50,
      ContentEv [Content [422 / 100], Content [417 / 100], Content [355 / 100]],
      ContentEv [Content [3]]]
   = ([\<lparr>quantity = 4, after = []\<rparr>, \<lparr>quantity = 3, after = [48 / 10]\<rparr>,
       \<lparr>quantity = 1, after = [355 / 100]\<rparr>], None)"
  by (simp add: engine_defs Let_def)

text \<open>
  \<open>should retain load instructions while min quantity is not reached\<close>: seventeen
  scrolls of one item, a batch at the seventh and at the thirteenth.
\<close>

lemma test_min_quantity:
  "getChainedLoadInstruction
     ([settingsOf (Num 20) Undefined (Num 5) Undefined]
      @ [scrollBy 20, scrollBy 20, scrollBy 20, scrollBy 20, scrollBy 20, scrollBy 20, scrollBy 20]
      @ [ContentEv [Content [0], Content [1], Content [2], Content [3], Content [4]]]
      @ [scrollBy 20, scrollBy 20, scrollBy 20, scrollBy 20, scrollBy 20, scrollBy 20]
      @ [ContentEv [Content [5], Content [6], Content [7], Content [8], Content [9]]]
      @ [scrollBy 20, scrollBy 20, scrollBy 20, scrollBy 20])
   = ([\<lparr>quantity = 5, after = []\<rparr>, \<lparr>quantity = 5, after = [4]\<rparr>,
       \<lparr>quantity = 5, after = [9]\<rparr>], None)"
  by (simp add: engine_defs Let_def)

text \<open>\<open>should return a batch of load instructions ... (maxQuantity option)\<close>\<close>

lemma test_max_quantity:
  "getChainedLoadInstruction
     [settingsOf (Num 50) Undefined Undefined (Num 10),
      scrollBy 1100, fetched [650], fetched [150], fetched [50]]
   = ([\<lparr>quantity = 10, after = []\<rparr>, \<lparr>quantity = 10, after = [650]\<rparr>,
       \<lparr>quantity = 2, after = [150]\<rparr>], None)"
  by (simp add: engine_defs Let_def)

text \<open>\<open>should adapt to a change of settings\<close>\<close>

lemma test_change_of_settings:
  "getChainedLoadInstruction
     [settingsOf (Num 50) Undefined Undefined (Num 10),
      scrollBy 1100,
      settingsOf (Num 50) Undefined Undefined Undefined,
      fetched [650], fetched [50]]
   = ([\<lparr>quantity = 10, after = []\<rparr>, \<lparr>quantity = 12, after = [650]\<rparr>], None)"
  by (simp add: engine_defs Let_def)

text \<open>
  The eight tests \<open>should throw an error if ...\<close>: the values that are not numbers
  are the strings \<open>'contentHeight'\<close>, \<open>'minQuantity'\<close> and \<open>'maxQuantity'\<close>.
\<close>

lemma test_invalid_settings:
  "map (\<lambda>e. getChainedLoadInstruction [e])
     [settingsOf Undefined Undefined Undefined Undefined,
      settingsOf (Str ''contentHeight'' None) Undefined Undefined Undefined,
      settingsOf (Num 0) Undefined Undefined Undefined,
      settingsOf (Num 50) Undefined (Str ''minQuantity'' None) Undefined,
      settingsOf (Num 50) Undefined (Num (- 1)) Undefined,
      settingsOf (Num 50) Undefined Undefined (Str ''maxQuantity'' None),
      settingsOf (Num 50) Undefined Undefined (Num 0),
      settingsOf (Num 50) Undefined (Num 10) (Num 5)]
   = map (\<lambda>x. ([], Some x))
       [MissingContentHeight, InvalidContentHeight, NonPositiveContentHeight, InvalidMinQuantity,
        NegativeMinQuantity, InvalidMaxQuantity, MaxQuantityBelowOne, MinExceedsMax]"
  by (simp add: engine_defs Let_def)

text \<open>
  \<open>should return loading instructions according to content's height and buffer settings\<close>
  (the raw engine's test).
\<close>

lemma test_raw_buffer:
  "rawRun rawInit
     [settingsOf (Num 25) (Num 50) Undefined Undefined, DelayElapsed, scrollBy 25, scrollBy 25,
      settingsOf (Num 25) (Num 150) Undefined Undefined, DelayElapsed, scrollBy 25, scrollBy 25,
      settingsOf (Num 25) (Num 100) Undefined Undefined, DelayElapsed, scrollBy 25, scrollBy 25]
   = [RawLoadInstruction (Some 2), RawLoadInstruction (Some 1), RawLoadInstruction (Some 1),
      RawLoadInstruction (Some 4), RawLoadInstruction (Some 1), RawLoadInstruction (Some 1),
      RawLoadInstruction (Some 1), RawLoadInstruction (Some 1)]"
  by (simp add: engine_defs Let_def)

text \<open>
  \<open>should debounce scroll according to settings\<close> (raw.test.ts): ten scrolls of 50, one
  per tick, settings at the first and at the sixth tick, the second with a debounce of
  one tick. A scroll delivered in the tick of a settings value is lost with the stage
  that the settings value replaces; the last four scrolls are summed.
\<close>

lemma test_debounce:
  "getRawLoadInstruction
     \<lparr>scroll = Some (replicate 10 \<lparr>deltaX = None, deltaY = Some 50, deltaZ = None\<rparr>), resize = None\<rparr>
     (Some [\<lparr>contentHeight = Some (Num 50), buffer = None, debounce = None, throttle = None,
              minQuantity = None, maxQuantity = None\<rparr>,
            \<lparr>contentHeight = Some (Num 50), buffer = None, debounce = Some (Num 20), throttle = None,
              minQuantity = None, maxQuantity = None\<rparr>])
     [FromScroll, FromSettings,
      FromScroll, FromDebounce True, FromScroll, FromDebounce True,
      FromScroll, FromDebounce True, FromScroll, FromDebounce True,
      FromScroll, FromSettings,
      FromScroll, FromScroll, FromScroll, FromScroll, FromDebounce True]
   = [RawLoadInstruction (Some 1), RawLoadInstruction (Some 1), RawLoadInstruction (Some 1),
      RawLoadInstruction (Some 1), RawLoadInstruction (Some 4)]"
  by (simp add: getRawLoadInstruction_def makeValidScrollOrResize_def makeValidSettings_def
      eval_nat_numeral engine_defs Let_def)

text \<open>
  \<open>should throttle scroll according to settings\<close>: ten scrolls, settings with a throttle
  of one tick at the sixth tick; afterwards every second scroll is suppressed.
\<close>

lemma test_throttle:
  "getRawLoadInstruction
     \<lparr>scroll = Some (replicate 10 \<lparr>deltaX = None, deltaY = Some 50, deltaZ = None\<rparr>), resize = None\<rparr>
     (Some [\<lparr>contentHeight = None, buffer = None, debounce = None, throttle = Some (Num 20),
              minQuantity = None, maxQuantity = None\<rparr>])
     [FromScroll, FromDebounce True, FromScroll, FromDebounce True, FromScroll, FromDebounce True,
      FromScroll, FromDebounce True, FromScroll, FromDebounce True,
      FromScroll, FromSettings,
      FromScroll, FromDebounce True, FromScroll, FromDebounce False,
      FromScroll, FromDebounce True, FromScroll, FromDebounce False]
   = replicate 7 (RawLoadInstruction None)"
  by (simp add: getRawLoadInstruction_def makeValidScrollOrResize_def makeValidSettings_def
      eval_nat_numeral engine_defs Let_def)

section \<open>Scenario C\<close>

text \<open>
  C1, as stated: six raw deltas of 15 and two fetch completions at positions 6 and 8
  give the quantities 30, 50, 25 and a residual surplus of 0. It fails: six deltas
  are 90 items, the three quantities are 105. With the completions as the sixth and
  the eighth event the engine emits 30 and 45 and keeps 15; with six deltas followed
  by two completions it emits 30 and 50 and keeps 10.
\<close>

theorem scenario_C_as_stated_fails:
  "\<not> (map quantity (fst (getChainedLoadInstruction
         [settingsOf (Num 1) Undefined (Num 20) (Num 50),
          scrollBy 15, scrollBy 15, scrollBy 15, scrollBy 15, scrollBy 15, fetched [1],
          scrollBy 15, fetched [2]])) = [30, 50, 25]) \<and>
   \<not> (map quantity (fst (getChainedLoadInstruction
         [settingsOf (Num 1) Undefined (Num 20) (Num 50),
          scrollBy 15, scrollBy 15, scrollBy 15, scrollBy 15, scrollBy 15, scrollBy 15,
          fetched [1], fetched [2]])) = [30, 50, 25])"
  by (simp add: engine_defs Let_def)

text \<open>
  C1, amended: with contentHeight 1, minQuantity 20 and maxQuantity 50, six raw deltas
  of 15 followed by two fetch completions give the quantities 30 and 50 and leave a
  surplus of 10; the quantity 25 of the worked example needs a seventh delta of 15
  after the second completion, and then the surplus left is 0.
\<close>

theorem scenario_C_worked_example:
  "getChainedLoadInstruction
     [settingsOf (Num 1) Undefined (Num 20) (Num 50),
      scrollBy 15, scrollBy 15, scrollBy 15, scrollBy 15, scrollBy 15, scrollBy 15,
      fetched [1], fetched [2]]
   = ([\<lparr>quantity = 30, after = []\<rparr>, \<lparr>quantity = 50, after = [1]\<rparr>], None) \<and>
   remaining (exec chainedInit
     [settingsOf (Num 1) Undefined (Num 20) (Num 50),
      scrollBy 15, scrollBy 15, scrollBy 15, scrollBy 15, scrollBy 15, scrollBy 15,
      fetched [1], fetched [2]]) = 10 \<and>
   getChainedLoadInstruction
     [settingsOf (Num 1) Undefined (Num 20) (Num 50),
      scrollBy 15, scrollBy 15, scrollBy 15, scrollBy 15, scrollBy 15, scrollBy 15,
      fetched [1], fetched [2], scrollBy 15, fetched [3]]
   = ([\<lparr>quantity = 30, after = []\<rparr>, \<lparr>quantity = 50, after = [1]\<rparr>,
       \<lparr>quantity = 25, after = [2]\<rparr>], None) \<and>
   remaining (exec chainedInit
     [settingsOf (Num 1) Undefined (Num 20) (Num 50),
      scrollBy 15, scrollBy 15, scrollBy 15, scrollBy 15, scrollBy 15, scrollBy 15,
      fetched [1], fetched [2], scrollBy 15, fetched [3]]) = 0"
  by (simp add: engine_defs Let_def)


section \<open>Runs\<close>

lemma step_failed: "failure c \<noteq> None \<Longrightarrow> step c e = (c, [])"
  by (simp add: step_def)

lemma emitted_failed: "failure c \<noteq> None \<Longrightarrow> emitted c es = []"
  by (induction es) (simp_all add: step_failed)

lemma exec_failed: "failure c \<noteq> None \<Longrightarrow> exec c es = c"
  by (induction es) (simp_all add: step_failed)

lemma emitted_append: "emitted c (xs @ ys) = emitted c xs @ emitted (exec c xs) ys"
  by (induction xs arbitrary: c) simp_all

lemma exec_append: "exec c (xs @ ys) = exec (exec c xs) ys"
  by (induction xs arbitrary: c) simp_all

section \<open>Validation\<close>

lemma spot_is_hardValidation: "spotInvalidSettings s = hardValidation s"
  by (cases "valueOf (contentHeight s)"; cases "valueOf (minQuantity s)";
      cases "valueOf (maxQuantity s)";
      simp add: spotInvalidSettings_def settingsAreInvalid_def settingsAreValid_def
        hardValidation_def isContentHeightValid_def isMinQuantityValid_def
        isMaxQuantityValid_def areMinAndMaxCompatible_def isNaN_def js_le_def js_lt_def
        split: option.splits)

lemma settingsAreInvalid_never_true: "settingsAreInvalid s \<noteq> Inr True"
  by (cases "valueOf (contentHeight s)"; cases "valueOf (minQuantity s)";
      cases "valueOf (maxQuantity s)";
      simp add: settingsAreInvalid_def settingsAreValid_def isContentHeightValid_def
        isMinQuantityValid_def isMaxQuantityValid_def areMinAndMaxCompatible_def
        isNaN_def js_le_def js_lt_def split: option.splits)

lemma step_settings:
  "failure c = None \<Longrightarrow>
   step c (SettingsEv s) = applySettings (c\<lparr>raw := rawSettings (raw c) s\<rparr>) s"
  by (simp add: step_def rawStep_def getQuantityToAdd_def)

lemma applySettings_failure: "failure (fst (applySettings c s)) = spotInvalidSettings s"
  by (simp add: applySettings_def split_beta Let_def)

lemma invalid_settings_end_the_stream:
  assumes "failure c = None" "hardValidation s = Some err"
  shows "failure (fst (step c (SettingsEv s))) = Some err \<and>
     emitted (fst (step c (SettingsEv s))) es = [] \<and>
     failure (exec (fst (step c (SettingsEv s))) es) = Some err"
proof -
  have b: "failure (fst (step c (SettingsEv s))) = Some err"
    using assms by (simp add: step_settings applySettings_failure spot_is_hardValidation)
  from b show ?thesis by (simp add: emitted_failed exec_failed)
qed

lemma settings_delivery_is_quiet:
  "valueOf (minQuantity s) = Undefined \<or> remaining c \<le> 0 \<or> \<not> started c \<Longrightarrow>
   snd (step c (SettingsEv s)) = []"
  by (cases "failure c = None")
     (auto simp add: step_failed step_settings applySettings_def applyMinQuantity_def
        quantityIsPositive_def Let_def split_beta)

lemma contentHeight_first:
  assumes "isContentHeightValid (valueOf (contentHeight s)) = Inl e1"
  shows "hardValidation s = Some e1 \<and>
     (e1 = MissingContentHeight \<or> e1 = InvalidContentHeight \<or> e1 = NonPositiveContentHeight)"
  using assms unfolding spot_is_hardValidation [symmetric]
  by (auto simp add: spotInvalidSettings_def settingsAreInvalid_def settingsAreValid_def
      isContentHeightValid_def split: if_splits)

lemma messages_distinct: "inj message"
proof (rule injI)
  fix x y assume "message x = message y"
  then show "x = y" by (cases x; cases y; simp)
qed

text \<open>
  Two strings are compared as texts: the minQuantity \<open>'9'\<close> exceeds the maxQuantity
  \<open>'10'\<close>, and the minQuantity \<open>'10'\<close> does not exceed the maxQuantity \<open>'9'\<close>.
\<close>

lemma strings_are_compared_as_texts:
  "spotInvalidSettings
     \<lparr>contentHeight = Some (Num 50), buffer = None, debounce = None, throttle = None,
       minQuantity = Some (Str ''9'' (Some 9)), maxQuantity = Some (Str ''10'' (Some 10))\<rparr>
     = Some MinExceedsMax \<and>
   spotInvalidSettings
     \<lparr>contentHeight = Some (Num 50), buffer = None, debounce = None, throttle = None,
       minQuantity = Some (Str ''10'' (Some 10)), maxQuantity = Some (Str ''9'' (Some 9))\<rparr>
     = None"
  by (simp add: spotInvalidSettings_def settingsAreInvalid_def settingsAreValid_def
      isContentHeightValid_def isMinQuantityValid_def isMaxQuantityValid_def
      areMinAndMaxCompatible_def isNaN_def js_le_def js_lt_def valueOf_def)

text \<open>
  The floor is served before the validation: a settings value with a minQuantity that
  the pending surplus passes emits the surplus, also when the value is invalid and
  ends the stream.
\<close>

lemma floor_before_validation:
  "getChainedLoadInstruction
     [settingsOf (Num 50) Undefined (Num 5) Undefined, scrollBy 100,
      settingsOf (Num 0) Undefined (Num 1) Undefined, scrollBy 100]
   = ([\<lparr>quantity = 2, after = []\<rparr>], Some NonPositiveContentHeight)"
  by (simp add: engine_defs Let_def split_beta)

text \<open>
  C5, as stated: the hard validation runs on every merged settings value. It fails:
  the chained engine validates each value of \<open>settings$\<close> as it arrives, not the merge
  of the values so far. After a first value with maxQuantity 5, a second value with
  minQuantity 10 and no maxQuantity is valid by itself; their merge fails the last
  check, and yet the stream goes on, with the floor 10 and without ceiling.
\<close>

theorem merged_value_is_not_validated:
  "hardValidation
     (accumulateSettings
        \<lparr>contentHeight = Some (Num 50), buffer = None, debounce = None, throttle = None,
          minQuantity = None, maxQuantity = Some (Num 5)\<rparr>
        \<lparr>contentHeight = Some (Num 50), buffer = None, debounce = None, throttle = None,
          minQuantity = Some (Num 10), maxQuantity = None\<rparr>)
     = Some MinExceedsMax \<and>
   getChainedLoadInstruction
     [settingsOf (Num 50) Undefined Undefined (Num 5),
      settingsOf (Num 50) Undefined (Num 10) Undefined,
      scrollBy 500]
   = ([\<lparr>quantity = 10, after = []\<rparr>], None)"
  by (simp add: engine_defs Let_def hardValidation_def split_beta)

text \<open>
  C5, amended: for every settings value delivered to the chained engine (each value of
  \<open>settings$\<close> as it arrives) the validation reports the first failing check of the
  list contentHeight missing, not numeric, not positive, minQuantity not numeric,
  negative, maxQuantity not numeric, below 1, minQuantity above maxQuantity (by
  JavaScript's \<open>>\<close>, which compares two strings as texts). The error ends the output
  stream: nothing is emitted afterwards, and the delivery of the invalid value itself
  emits nothing when the value has no minQuantity or no surplus is pending. When
  contentHeight and minQuantity are both invalid, the error is one of the three errors
  of contentHeight. The eight errors have distinct messages.
\<close>

theorem hard_validation_order:
  "spotInvalidSettings s = hardValidation s \<and>
   (failure c = None \<and> hardValidation s = Some err \<longrightarrow>
      (valueOf (minQuantity s) = Undefined \<or> remaining c \<le> 0 \<or> \<not> started c \<longrightarrow>
         snd (step c (SettingsEv s)) = []) \<and>
      failure (fst (step c (SettingsEv s))) = Some err \<and>
      emitted (fst (step c (SettingsEv s))) es = [] \<and>
      failure (exec (fst (step c (SettingsEv s))) es) = Some err) \<and>
   (isContentHeightValid (valueOf (contentHeight s)) = Inl e1
      \<and> isMinQuantityValid (valueOf (minQuantity s)) = Inl e2 \<longrightarrow>
      hardValidation s = Some e1 \<and>
      (e1 = MissingContentHeight \<or> e1 = InvalidContentHeight \<or> e1 = NonPositiveContentHeight)) \<and>
   inj message"
  using spot_is_hardValidation [of s] invalid_settings_end_the_stream [of c s err es]
    settings_delivery_is_quiet [of s c] contentHeight_first [of s e1] messages_distinct
  by simp

text \<open>
  An instance: after a valid settings value and one instruction, a settings value with
  contentHeight 0 and a minQuantity that is not a number ends the stream with the
  error of contentHeight; the batch and the scroll that follow emit nothing.
\<close>

theorem hard_validation_order_witness:
  "getChainedLoadInstruction
     [settingsOf (Num 50) Undefined Undefined Undefined, scrollBy 100,
      settingsOf (Num 0) Undefined NaN Undefined, fetched [1], scrollBy 100]
   = ([\<lparr>quantity = 2, after = []\<rparr>], Some NonPositiveContentHeight)"
proof -
  let ?pre = "[settingsOf (Num 50) Undefined Undefined Undefined, scrollBy 100]"
  let ?s = "\<lparr>contentHeight = Some (Num 0), buffer = None, debounce = None, throttle = None,
       minQuantity = Some NaN, maxQuantity = None\<rparr>"
  let ?c = "exec chainedInit ?pre"
  have pre: "emitted chainedInit ?pre = [\<lparr>quantity = 2, after = []\<rparr>]"
    by (simp add: engine_defs Let_def split_beta)
  have f: "failure ?c = None" by (simp add: engine_defs Let_def split_beta)
  have h: "hardValidation ?s = Some NonPositiveContentHeight"
    by (simp add: hardValidation_def valueOf_def isNaN_def js_le_def)
  have c1: "isContentHeightValid (valueOf (contentHeight ?s)) = Inl NonPositiveContentHeight"
    by (simp add: isContentHeightValid_def valueOf_def isNaN_def js_le_def)
  have c2: "isMinQuantityValid (valueOf (minQuantity ?s)) = Inl InvalidMinQuantity"
    by (simp add: isMinQuantityValid_def valueOf_def isNaN_def)
  have r: "remaining ?c \<le> 0" by (simp add: engine_defs Let_def split_beta)
  note t = hard_validation_order [of ?s ?c NonPositiveContentHeight "[fetched [1], scrollBy 100]"
      NonPositiveContentHeight InvalidMinQuantity]
  from t f h r have a: "snd (step ?c (SettingsEv ?s)) = []" by blast
  from t f h c1 c2 have
    b: "emitted (fst (step ?c (SettingsEv ?s))) [fetched [1], scrollBy 100] = []" and
    d: "failure (exec (fst (step ?c (SettingsEv ?s))) [fetched [1], scrollBy 100]) = Some NonPositiveContentHeight"
    by blast+
  have split: "[settingsOf (Num 50) Undefined Undefined Undefined, scrollBy 100,
      settingsOf (Num 0) Undefined NaN Undefined, fetched [1], scrollBy 100]
      = ?pre @ SettingsEv ?s # [fetched [1], scrollBy 100]"
    by (simp add: settingsOf_def given_def)
  show ?thesis
    unfolding getChainedLoadInstruction_def split emitted_append exec_append
    using pre a b d by simp
qed


section \<open>The raw engine without input streams\<close>

lemma rawRun_timers_only:
  "delayed r = [] \<Longrightarrow> rawRun r (deliver schedule [] [] [] []) = []"
proof (induction schedule)
  case Nil
  then show ?case by simp
next
  case (Cons src schedule)
  then show ?case by (cases src) (simp_all add: rawStep_def)
qed

text \<open>
  C10: \<open>getRawLoadInstruction\<close> called without scroll stream, without resize stream
  and without settings stream runs on the default settings and emits nothing, whatever
  the schedule; the raw engine has no error.
\<close>

theorem raw_engine_without_streams:
  "getRawLoadInstruction \<lparr>scroll = None, resize = None\<rparr> None schedule = []"
  by (simp add: getRawLoadInstruction_def makeValidScrollOrResize_def makeValidSettings_def
      never_def rawRun_timers_only rawInit_def)

section \<open>Unit conversion\<close>


lemma merge_positive:
  "toNumber v = Some x \<Longrightarrow> 0 < x \<Longrightarrow> mergeAndValidateSingleOption v 0 = x"
  by (simp add: mergeAndValidateSingleOption_def)

lemma merge_not_positive:
  "toNumber v = None \<or> js_le v 0 \<Longrightarrow> mergeAndValidateSingleOption v 0 = 0"
  by (auto simp add: mergeAndValidateSingleOption_def js_le_def split: option.splits)


text \<open>
  A property that is present with the value \<open>undefined\<close> replaces the accumulated one:
  after \<open>{contentHeight: 25}\<close>, the value \<open>{contentHeight: undefined}\<close> leaves the
  raw engine without contentHeight.
\<close>

lemma present_undefined_overrides:
  "rawRun rawInit
     [settingsOf (Num 25) Undefined Undefined Undefined, scrollBy 50,
      SettingsEv \<lparr>contentHeight = Some Undefined, buffer = None, debounce = None,
        throttle = None, minQuantity = None, maxQuantity = None\<rparr>,
      scrollBy 50,
      SettingsEv \<lparr>contentHeight = None, buffer = None, debounce = None,
        throttle = None, minQuantity = None, maxQuantity = None\<rparr>,
      scrollBy 50]
   = [RawLoadInstruction (Some 2), RawLoadInstruction None, RawLoadInstruction None]"
  by (simp add: engine_defs Let_def)




lemma no_qualifying_event_no_instruction:
  "scrollDownOrResizeToTallerDelta burst = [] \<Longrightarrow> snd (rawStep r (ScrollOrResize burst)) = []"
  by (simp add: rawStep_def getScrollOrResizeDelta_def)





section \<open>The buffer\<close>

text \<open>
  C8, as stated: a buffer that arrives with the very first settings value produces no
  shortfall signal. It fails: the first settings value of Scenario D (contentHeight 50,
  buffer 1000) puts the delta 1000 into the delay, and the raw engine emits the
  quantity 20 for it.
\<close>

theorem first_buffer_gives_shortfall:
  "delayed (fst (rawStep rawInit (settingsOf (Num 50) (Num 1000) Undefined Undefined))) = [1000] \<and>
   rawRun rawInit [settingsOf (Num 50) (Num 1000) Undefined Undefined, DelayElapsed]
     = [RawLoadInstruction (Some 20)]"
  by (simp add: engine_defs Let_def)

lemma accumulate_noSettings: "accumulateSettings noSettings s = s"
  by (simp add: accumulateSettings_def noSettings_def spread_def split: option.splits)

text \<open>
  C8, amended: the buffer of the very first settings value is compared with an initial
  buffer of 0. With a positive contentHeight and a positive buffer the shortfall signal
  is the whole buffer, and the raw engine emits the ceiling of \<open>buffer / contentHeight\<close>
  when the delay has elapsed; when the buffer or the contentHeight is absent, not a
  number or not positive, there is no shortfall signal.
\<close>

theorem first_buffer_is_diffed_against_zero:
  "(toNumber (valueOf (contentHeight s)) = Some ch \<and> 0 < ch \<and>
    toNumber (valueOf (buffer s)) = Some b \<and> 0 < b \<longrightarrow>
      delayed (fst (rawStep rawInit (SettingsEv s))) = [b] \<and>
      rawRun rawInit [SettingsEv s, DelayElapsed] = [RawLoadInstruction (Some (of_int \<lceil>b / ch\<rceil>))]) \<and>
   (toNumber (valueOf (buffer s)) = None \<or> js_le (valueOf (buffer s)) 0 \<or>
    toNumber (valueOf (contentHeight s)) = None \<or> js_le (valueOf (contentHeight s)) 0 \<longrightarrow>
      delayed (fst (rawStep rawInit (SettingsEv s))) = [] \<and>
      rawRun rawInit [SettingsEv s, DelayElapsed] = [])"
proof -
  have r: "fst (rawStep rawInit (SettingsEv s)) = rawSettings rawInit s"
          "snd (rawStep rawInit (SettingsEv s)) = []"
    by (simp_all add: rawStep_def)
  have acc: "accumulateSettings (accumulated rawInit) s = s"
    by (simp add: rawInit_def accumulate_noSettings)
  have a: "toNumber (valueOf (contentHeight s)) = Some ch \<and> 0 < ch \<and>
      toNumber (valueOf (buffer s)) = Some b \<and> 0 < b \<longrightarrow>
      delayed (fst (rawStep rawInit (SettingsEv s))) = [b] \<and>
      rawRun rawInit [SettingsEv s, DelayElapsed] = [RawLoadInstruction (Some (of_int \<lceil>b / ch\<rceil>))]"
  proof
    assume h: "toNumber (valueOf (contentHeight s)) = Some ch \<and> 0 < ch \<and>
      toNumber (valueOf (buffer s)) = Some b \<and> 0 < b"
    then have m: "mContentHeight (mergeAndValidateSettings s) = ch" "mBuffer (mergeAndValidateSettings s) = b"
      by (simp_all add: mergeAndValidateSettings_def DEFAULT_SETTINGS_def merge_positive)
    have d: "delayed (rawSettings rawInit s) = [b]"
         and v: "mContentHeight (validSettings (rawSettings rawInit s)) = ch"
      using h m unfolding rawSettings_def acc Let_def
      by (simp_all add: getBufferDelta_def settingsAreValid_raw_def extractBuffer_def
          computeDelta_def bufferIsGreater_def rawInit_def)
    show "delayed (fst (rawStep rawInit (SettingsEv s))) = [b] \<and>
      rawRun rawInit [SettingsEv s, DelayElapsed] = [RawLoadInstruction (Some (of_int \<lceil>b / ch\<rceil>))]"
      using h d v by (simp add: r rawStep_def [of _ DelayElapsed] applySettingToValue_def)
  qed
  have b: "toNumber (valueOf (buffer s)) = None \<or> js_le (valueOf (buffer s)) 0 \<or>
    toNumber (valueOf (contentHeight s)) = None \<or> js_le (valueOf (contentHeight s)) 0 \<longrightarrow>
      delayed (fst (rawStep rawInit (SettingsEv s))) = [] \<and>
      rawRun rawInit [SettingsEv s, DelayElapsed] = []"
  proof
    assume h: "toNumber (valueOf (buffer s)) = None \<or> js_le (valueOf (buffer s)) 0 \<or>
      toNumber (valueOf (contentHeight s)) = None \<or> js_le (valueOf (contentHeight s)) 0"
    then have "mBuffer (mergeAndValidateSettings s) = 0 \<or> mContentHeight (mergeAndValidateSettings s) = 0"
      using merge_not_positive [of "valueOf (buffer s)"] merge_not_positive [of "valueOf (contentHeight s)"]
      by (auto simp add: mergeAndValidateSettings_def DEFAULT_SETTINGS_def)
    then have d: "delayed (rawSettings rawInit s) = []"
      unfolding rawSettings_def acc Let_def
      by (auto simp add: getBufferDelta_def settingsAreValid_raw_def rawInit_def)
    show "delayed (fst (rawStep rawInit (SettingsEv s))) = [] \<and>
      rawRun rawInit [SettingsEv s, DelayElapsed] = []"
      using d by (simp add: r rawStep_def [of _ DelayElapsed])
  qed
  from a b show ?thesis by blast
qed

text \<open>
  The first settings value of the tests \<open>... according to content's height and buffer
  settings\<close> and \<open>should ignore buffer setting if contentHeight is not provided\<close>.
\<close>

theorem first_buffer_is_diffed_against_zero_witness:
  "rawRun rawInit [settingsOf (Num 25) (Num 50) Undefined Undefined, DelayElapsed]
     = [RawLoadInstruction (Some 2)] \<and>
   rawRun rawInit [settingsOf Undefined (Num 75) Undefined Undefined, DelayElapsed] = []"
proof -
  let ?s1 = "\<lparr>contentHeight = Some (Num 25), buffer = Some (Num 50), debounce = None, throttle = None,
       minQuantity = None, maxQuantity = None\<rparr>"
  let ?s2 = "\<lparr>contentHeight = None, buffer = Some (Num 75), debounce = None, throttle = None,
       minQuantity = None, maxQuantity = None\<rparr>"
  have h1: "toNumber (valueOf (contentHeight ?s1)) = Some 25 \<and> (0::rat) < 25 \<and>
            toNumber (valueOf (buffer ?s1)) = Some 50 \<and> (0::rat) < 50"
    by (simp add: valueOf_def)
  have h2: "toNumber (valueOf (contentHeight ?s2)) = None" by (simp add: valueOf_def)
  have a: "rawRun rawInit [SettingsEv ?s1, DelayElapsed] = [RawLoadInstruction (Some 2)]"
    using first_buffer_is_diffed_against_zero [of ?s1 25 50] h1 by simp
  have b: "rawRun rawInit [SettingsEv ?s2, DelayElapsed] = []"
    using first_buffer_is_diffed_against_zero [of ?s2 25 50] h2 by blast
  from a b show ?thesis by (simp add: settingsOf_def given_def)
qed

section \<open>Scenario D\<close>

lemma quiet_step:
  assumes "failure c = None" "delayed (raw c) = []" "\<not> quantityFresh c" "timerOrContent e"
  shows "snd (step c e) = [] \<and> failure (fst (step c e)) = None \<and>
         delayed (raw (fst (step c e))) = [] \<and> \<not> quantityFresh (fst (step c e))"
proof (cases e)
  case (SettingsEv s)
  with assms show ?thesis by simp
next
  case (ScrollOrResize ev)
  with assms show ?thesis by simp
next
  case (ContentEv b)
  with assms show ?thesis
    by (simp add: step_def rawStep_def getQuantityToAdd_def getAfter_def getLoadInstruction_def
        split: option.splits)
next
  case DelayElapsed
  with assms show ?thesis
    by (simp add: step_def rawStep_def getQuantityToAdd_def)
qed

lemma quiet_run:
  "failure c = None \<Longrightarrow> delayed (raw c) = [] \<Longrightarrow> \<not> quantityFresh c \<Longrightarrow>
   list_all timerOrContent es \<Longrightarrow> emitted c es = [] \<and> failure (exec c es) = None"
proof (induction es arbitrary: c)
  case Nil
  then show ?case by simp
next
  case (Cons e es)
  from Cons.prems have q: "timerOrContent e" and r: "list_all timerOrContent es" by simp_all
  note s = quiet_step [OF Cons.prems(1-3) q]
  from s Cons.IH [of "fst (step c e)"] r show ?case by simp
qed

text \<open>
  C7: with the settings contentHeight 50 and buffer 1000 and no motion event, the
  chained engine emits nothing when the settings arrive, the single instruction of
  quantity 20 after the empty cursor when the delay has elapsed, and nothing more
  whatever timers and content batches follow.
\<close>

theorem scenario_D_buffer_only:
  assumes "list_all timerOrContent es"
  shows "getChainedLoadInstruction [settingsOf (Num 50) (Num 1000) Undefined Undefined] = ([], None) \<and>
         getChainedLoadInstruction
           ([settingsOf (Num 50) (Num 1000) Undefined Undefined, DelayElapsed] @ es)
         = ([\<lparr>quantity = 20, after = []\<rparr>], None)"
proof -
  let ?pre = "[settingsOf (Num 50) (Num 1000) Undefined Undefined, DelayElapsed]"
  have a: "getChainedLoadInstruction [settingsOf (Num 50) (Num 1000) Undefined Undefined] = ([], None)"
    by (simp add: engine_defs Let_def split_beta)
  have e: "emitted chainedInit ?pre = [\<lparr>quantity = 20, after = []\<rparr>]"
    by (simp add: engine_defs Let_def split_beta)
  have f: "failure (exec chainedInit ?pre) = None" by (simp add: engine_defs Let_def split_beta)
  have d: "delayed (raw (exec chainedInit ?pre)) = []" by (simp add: engine_defs Let_def split_beta)
  have q: "\<not> quantityFresh (exec chainedInit ?pre)" by (simp add: engine_defs Let_def split_beta)
  have "emitted chainedInit (?pre @ es) = [\<lparr>quantity = 20, after = []\<rparr>]"
    unfolding emitted_append using quiet_run [OF f d q assms] e by simp
  moreover have "failure (exec chainedInit (?pre @ es)) = None"
    unfolding exec_append using quiet_run [OF f d q assms] by simp
  ultimately show ?thesis using a unfolding getChainedLoadInstruction_def by simp
qed

text \<open>An instance with two more timers and a content batch.\<close>

theorem scenario_D_buffer_only_witness:
  "getChainedLoadInstruction
     [settingsOf (Num 50) (Num 1000) Undefined Undefined, DelayElapsed, DelayElapsed,
      fetched [7], DelayElapsed]
   = ([\<lparr>quantity = 20, after = []\<rparr>], None)"
proof -
  have "list_all timerOrContent [DelayElapsed, fetched [7], DelayElapsed]"
    by (simp add: fetched_def)
  from scenario_D_buffer_only [OF this] show ?thesis by simp
qed


section \<open>One step of the chained engine\<close>

lemma crq_fields [simp]:
  "afterLatest (computeRemainingQuantityToLoad c x) = afterLatest c"
  "afterFresh (computeRemainingQuantityToLoad c x) = afterFresh c"
  "started (computeRemainingQuantityToLoad c x) = started c"
  "minQ (computeRemainingQuantityToLoad c x) = minQ c"
  "maxQ (computeRemainingQuantityToLoad c x) = maxQ c"
  "failure (computeRemainingQuantityToLoad c x) = failure c"
  "raw (computeRemainingQuantityToLoad c x) = raw c"
  "remaining (computeRemainingQuantityToLoad c x) = remaining c + x"
  by (simp_all add: computeRemainingQuantityToLoad_def Let_def accumulateQuantities_def)

lemma cap_fields [simp]:
  "after (capStreamWithMaxQuantity mx i) = after i"
  "quantity (capStreamWithMaxQuantity mx i) = (case mx of Some m \<Rightarrow> min (quantity i) m | None \<Rightarrow> quantity i)"
  by (simp_all add: capStreamWithMaxQuantity_def capWithQuantity_def split: option.splits)

lemma gli_quiet: "\<not> emits c \<Longrightarrow> getLoadInstruction c = (c, [])"
  by (auto simp add: emits_def getLoadInstruction_def split: option.splits)

lemma gli_emits:
  "emits c \<Longrightarrow> quantityLatest c = Some q \<Longrightarrow>
   getLoadInstruction c =
     (computeRemainingQuantityToLoad (c\<lparr>quantityFresh := False, afterFresh := False\<rparr>)
        (- quantity (capStreamWithMaxQuantity (maxQ c) \<lparr>quantity = q, after = afterLatest c\<rparr>)),
      [capStreamWithMaxQuantity (maxQ c) \<lparr>quantity = q, after = afterLatest c\<rparr>])"
  by (simp add: emits_def getLoadInstruction_def Let_def makeLoadInstruction_def getQuantityToRemove_def)

lemma gli_fst:
  "fst (getLoadInstruction c) =
     (if emits c
      then computeRemainingQuantityToLoad (c\<lparr>quantityFresh := False, afterFresh := False\<rparr>)
        (- quantity (capStreamWithMaxQuantity (maxQ c)
              \<lparr>quantity = the (quantityLatest c), after = afterLatest c\<rparr>))
      else c)"
proof (cases "emits c")
  case True
  then obtain q where "quantityLatest c = Some q" by (auto simp add: emits_def)
  with True show ?thesis by (simp add: gli_emits)
next
  case False
  then show ?thesis by (simp add: gli_quiet)
qed

lemma gli_fields [simp]:
  "afterLatest (fst (getLoadInstruction c)) = afterLatest c"
  "started (fst (getLoadInstruction c)) = started c"
  "minQ (fst (getLoadInstruction c)) = minQ c"
  "maxQ (fst (getLoadInstruction c)) = maxQ c"
  "failure (fst (getLoadInstruction c)) = failure c"
  "raw (fst (getLoadInstruction c)) = raw c"
  by (simp_all add: gli_fst)

lemma gli_afterFresh:
  "afterFresh (fst (getLoadInstruction c)) = (afterFresh c \<and> \<not> emits c)"
proof (cases "emits c")
  case True
  then obtain q where "quantityLatest c = Some q" by (auto simp add: emits_def)
  with True show ?thesis by (simp add: gli_emits)
next
  case False
  then show ?thesis by (simp add: gli_quiet)
qed


lemma gli_out:
  "snd (getLoadInstruction c) =
     (if emits c then [capStreamWithMaxQuantity (maxQ c) \<lparr>quantity = the (quantityLatest c), after = afterLatest c\<rparr>] else [])"
proof (cases "emits c")
  case True
  then obtain q where "quantityLatest c = Some q" by (auto simp add: emits_def)
  with True show ?thesis by (simp add: gli_emits)
next
  case False
  then show ?thesis by (simp add: gli_quiet)
qed

text \<open>The raw engine hands over at most one quantity, and a positive one.\<close>

lemma toAdd_cases:
  "getQuantityToAdd (snd (rawStep r e)) = [] \<or>
   (\<exists>q. 0 < q \<and> getQuantityToAdd (snd (rawStep r e)) = [q])"
  by (cases e)
     (auto simp add: rawStep_def getQuantityToAdd_def extractQuantity_def quantityIsPositive_def
        applySettingToValue_def getScrollOrResizeDelta_def split: list.splits)

lemma toAdd_settings [simp]: "getQuantityToAdd (snd (rawStep r (SettingsEv s))) = []"
  by (simp add: rawStep_def getQuantityToAdd_def)

lemma toAdd_content [simp]: "getQuantityToAdd (snd (rawStep r (ContentEv b))) = []"
  by (simp add: rawStep_def getQuantityToAdd_def)

lemma rawStep_content [simp]: "fst (rawStep r (ContentEv b)) = r"
  by (simp add: rawStep_def)

lemma addQuantities_Nil: "addQuantities c [] = (c, [])" by simp

lemma addQuantities_one:
  "addQuantities c [q] = getLoadInstruction (computeRemainingQuantityToLoad c q)"
  by (simp add: Let_def split_beta)

lemma step_content: "failure c = None \<Longrightarrow> step c (ContentEv b) = getAfter c b"
  by (simp add: step_def rawStep_def getQuantityToAdd_def)

lemma step_other_quiet:
  "failure c = None \<Longrightarrow> \<not> isSettingsEv e \<Longrightarrow> \<not> (\<exists>b. e = ContentEv b) \<Longrightarrow>
   getQuantityToAdd (snd (rawStep (raw c) e)) = [] \<Longrightarrow>
   step c e = (c\<lparr>raw := fst (rawStep (raw c) e)\<rparr>, [])"
  by (cases e) (simp_all add: step_def split_beta)

lemma step_other_add:
  "failure c = None \<Longrightarrow> \<not> isSettingsEv e \<Longrightarrow> \<not> (\<exists>b. e = ContentEv b) \<Longrightarrow>
   getQuantityToAdd (snd (rawStep (raw c) e)) = [q] \<Longrightarrow>
   step c e = getLoadInstruction (computeRemainingQuantityToLoad (c\<lparr>raw := fst (rawStep (raw c) e)\<rparr>) q)"
  by (cases e) (simp_all add: step_def Let_def split_beta)

text \<open>A settings value: the floor is replaced first, and may offer the pending surplus again.\<close>

lemma amq_replay:
  "mn \<noteq> Undefined \<Longrightarrow> 0 < remaining c \<Longrightarrow> started c \<Longrightarrow>
   filterStreamWithMinQuantity mn (remaining c) \<Longrightarrow>
   applyMinQuantity c mn =
     getLoadInstruction (c\<lparr>minQ := mn, quantityLatest := Some (remaining c), quantityFresh := True\<rparr>)"
  by (simp add: applyMinQuantity_def Let_def quantityIsPositive_def)

lemma amq_quiet:
  "\<not> (mn \<noteq> Undefined \<and> 0 < remaining c \<and> started c
      \<and> filterStreamWithMinQuantity mn (remaining c)) \<Longrightarrow>
   applyMinQuantity c mn = (c\<lparr>minQ := mn\<rparr>, [])"
  by (auto simp add: applyMinQuantity_def Let_def quantityIsPositive_def)

lemma amq_cases:
  "applyMinQuantity c mn = (c\<lparr>minQ := mn\<rparr>, []) \<or>
   started c \<and> applyMinQuantity c mn =
     getLoadInstruction (c\<lparr>minQ := mn, quantityLatest := Some (remaining c), quantityFresh := True\<rparr>)"
  using amq_replay [of mn c] amq_quiet [of mn c] by blast

lemma step_settings_fst:
  "failure c = None \<Longrightarrow>
   fst (step c (SettingsEv s)) =
     (fst (applyMinQuantity (c\<lparr>raw := rawSettings (raw c) s\<rparr>) (valueOf (minQuantity s))))
       \<lparr>maxQ := extractLimit (valueOf (maxQuantity s)), started := True,
        failure := spotInvalidSettings s\<rparr>"
  by (simp add: step_settings applySettings_def applyMaxQuantity_def split_beta Let_def)

lemma step_settings_snd:
  "failure c = None \<Longrightarrow>
   snd (step c (SettingsEv s)) =
     snd (applyMinQuantity (c\<lparr>raw := rawSettings (raw c) s\<rparr>) (valueOf (minQuantity s)))"
  by (simp add: step_settings applySettings_def split_beta Let_def)

lemma amq_fields [simp]:
  "afterLatest (fst (applyMinQuantity c mn)) = afterLatest c"
  "raw (fst (applyMinQuantity c mn)) = raw c"
  "minQ (fst (applyMinQuantity c mn)) = mn"
  "maxQ (fst (applyMinQuantity c mn)) = maxQ c"
  using amq_cases [of c mn] by auto

section \<open>The cursor gate\<close>

lemma getAfter_eq:
  "getAfter c b =
     (if started c \<and> advancesCursor (ContentEv b)
      then getLoadInstruction (c\<lparr>afterLatest := getLastContentSortAttribute b, afterFresh := True\<rparr>)
      else (c, []))"
  by (simp add: getAfter_def)

text \<open>What one event does to the cursor held by \<open>combineUnique\<close> and to the output.\<close>

lemma step_afterLatest:
  "afterLatest (fst (step c e)) =
     (case e of ContentEv b \<Rightarrow> (if accepted c e then getLastContentSortAttribute b else afterLatest c)
      | _ \<Rightarrow> afterLatest c)"
proof (cases "failure c = None")
  case False
  then show ?thesis by (cases e) (auto simp add: step_failed accepted_def)
next
  case True
  show ?thesis
  proof (cases e)
    case (SettingsEv s)
    with True show ?thesis by (simp add: step_settings_fst)
  next
    case (ContentEv b)
    with True show ?thesis by (simp add: step_content getAfter_eq accepted_def)
  next
    case (ScrollOrResize ev)
    with True toAdd_cases [of "raw c" e] show ?thesis
      by (auto simp add: step_other_quiet step_other_add)
  next
    case DelayElapsed
    with True toAdd_cases [of "raw c" e] show ?thesis
      by (auto simp add: step_other_quiet step_other_add)
  qed
qed

lemma gli_gate:
  "snd (getLoadInstruction c) = [] \<and> afterFresh (fst (getLoadInstruction c)) = afterFresh c \<or>
   length (snd (getLoadInstruction c)) = 1 \<and> map after (snd (getLoadInstruction c)) = [afterLatest c]
     \<and> \<not> afterFresh (fst (getLoadInstruction c)) \<and> afterFresh c"
  by (cases "emits c") (simp_all add: gli_out gli_afterFresh, simp add: emits_def)

lemma step_out:
  "snd (step c e) = [] \<and> afterFresh (fst (step c e)) = (afterFresh c \<or> accepted c e) \<or>
   (length (snd (step c e)) = 1 \<and> map after (snd (step c e)) = [afterLatest (fst (step c e))]
        \<and> \<not> afterFresh (fst (step c e)) \<and> (afterFresh c \<or> accepted c e))"
proof (cases "failure c = None")
  case False
  then show ?thesis by (auto simp add: step_failed accepted_def)
next
  case True
  have other: ?thesis if o: "\<not> isSettingsEv e" "\<not> (\<exists>b. e = ContentEv b)"
  proof -
    have na: "\<not> accepted c e" using o by (cases e) (simp_all add: accepted_def)
    from toAdd_cases [of "raw c" e] show ?thesis
    proof
      assume "getQuantityToAdd (snd (rawStep (raw c) e)) = []"
      then show ?thesis using True o na by (simp add: step_other_quiet)
    next
      assume "\<exists>q. 0 < q \<and> getQuantityToAdd (snd (rawStep (raw c) e)) = [q]"
      then obtain q where q: "getQuantityToAdd (snd (rawStep (raw c) e)) = [q]" by blast
      let ?c1 = "computeRemainingQuantityToLoad (c\<lparr>raw := fst (rawStep (raw c) e)\<rparr>) q"
      have s: "step c e = getLoadInstruction ?c1" using True o q by (simp add: step_other_add)
      from gli_gate [of ?c1] show ?thesis unfolding s using na by simp
    qed
  qed
  show ?thesis
  proof (cases e)
    case (SettingsEv s)
    let ?c0 = "c\<lparr>raw := rawSettings (raw c) s\<rparr>"
    let ?mn = "valueOf (minQuantity s)"
    let ?c1 = "?c0\<lparr>minQ := ?mn, quantityLatest := Some (remaining ?c0), quantityFresh := True\<rparr>"
    have na: "\<not> accepted c e" using SettingsEv by (simp add: accepted_def)
    from amq_cases [of ?c0 ?mn] show ?thesis
    proof
      assume "applyMinQuantity ?c0 ?mn = (?c0\<lparr>minQ := ?mn\<rparr>, [])"
      then show ?thesis using True SettingsEv na
        by (simp add: step_settings_fst step_settings_snd)
    next
      assume "started ?c0 \<and> applyMinQuantity ?c0 ?mn = getLoadInstruction ?c1"
      then have a: "applyMinQuantity ?c0 ?mn = getLoadInstruction ?c1" by simp
      from gli_gate [of ?c1] show ?thesis
        using True SettingsEv na by (simp add: step_settings_fst step_settings_snd a)
    qed
  next
    case (ContentEv b)
    show ?thesis
    proof (cases "accepted c e")
      case False
      with True ContentEv show ?thesis by (auto simp add: step_content getAfter_eq accepted_def)
    next
      case acc: True
      let ?c1 = "c\<lparr>afterLatest := getLastContentSortAttribute b, afterFresh := True\<rparr>"
      have s: "step c e = getLoadInstruction ?c1"
        using True ContentEv acc by (simp add: step_content getAfter_eq accepted_def)
      from gli_gate [of ?c1] show ?thesis unfolding s using acc by simp
    qed
  next
    case (ScrollOrResize ev)
    then show ?thesis using other by simp
  next
    case DelayElapsed
    then show ?thesis using other by simp
  qed
qed

lemma step_needs_cursor:
  "\<not> afterFresh c \<Longrightarrow> \<not> advancesCursor e \<Longrightarrow>
   snd (step c e) = [] \<and> \<not> afterFresh (fst (step c e))"
  using step_out [of c e] by (auto simp add: accepted_def)

lemma run_needs_cursor:
  "\<not> afterFresh c \<Longrightarrow> list_all (\<lambda>e. \<not> advancesCursor e) es \<Longrightarrow> emitted c es = []"
proof (induction es arbitrary: c)
  case Nil
  then show ?case by simp
next
  case (Cons e es)
  then have "snd (step c e) = [] \<and> \<not> afterFresh (fst (step c e))"
    using step_needs_cursor [of c e] by simp
  with Cons show ?case by simp
qed

lemma emission_uses_cursor: "snd (step c e) \<noteq> [] \<Longrightarrow> \<not> afterFresh (fst (step c e))"
  using step_out [of c e] by auto

lemma cursor_alone_is_not_enough: "\<not> quantityFresh c \<Longrightarrow> snd (step c (ContentEv b)) = []"
  by (cases "failure c = None")
     (simp_all add: step_failed step_content getAfter_eq gli_out emits_def)

lemma both_renewed_emit:
  "failure c = None \<Longrightarrow> started c \<Longrightarrow> quantityFresh c \<Longrightarrow> quantityLatest c = Some q \<Longrightarrow>
   advancesCursor (ContentEv b) \<Longrightarrow>
   snd (step c (ContentEv b)) =
     [capStreamWithMaxQuantity (maxQ c) \<lparr>quantity = q, after = getLastContentSortAttribute b\<rparr>]"
  by (simp add: step_content getAfter_eq gli_out emits_def)



section \<open>Backpressure\<close>

lemma new_surplus_meets_cursor:
  assumes "failure c = None" "started c" "afterFresh c" "\<not> isSettingsEv e" "\<not> advancesCursor e"
    "getQuantityToAdd (snd (rawStep (raw c) e)) = [q]" "0 < remaining c + q"
    "filterStreamWithMinQuantity (minQ c) (remaining c + q)"
  shows "snd (step c e) =
     [capStreamWithMaxQuantity (maxQ c) \<lparr>quantity = remaining c + q, after = afterLatest c\<rparr>]"
proof -
  have nc: "\<not> (\<exists>b. e = ContentEv b)" using assms(6) by auto
  let ?c1 = "computeRemainingQuantityToLoad (c\<lparr>raw := fst (rawStep (raw c) e)\<rparr>) q"
  have s: "step c e = getLoadInstruction ?c1" using assms(1,4,6) nc by (simp add: step_other_add)
  show ?thesis
    unfolding s using assms(2,3,7,8)
    by (simp add: gli_out emits_def computeRemainingQuantityToLoad_def Let_def
        accumulateQuantities_def quantityIsPositive_def)
qed

lemma new_floor_meets_cursor:
  assumes "failure c = None" "started c" "afterFresh c" "valueOf (minQuantity s) \<noteq> Undefined"
    "0 < remaining c" "filterStreamWithMinQuantity (valueOf (minQuantity s)) (remaining c)"
  shows "snd (step c (SettingsEv s)) =
     [capStreamWithMaxQuantity (maxQ c) \<lparr>quantity = remaining c, after = afterLatest c\<rparr>]"
  using assms by (simp add: step_settings_snd amq_replay gli_out emits_def)

lemma settings_without_floor_are_quiet:
  "valueOf (minQuantity s) = Undefined \<Longrightarrow> snd (step c (SettingsEv s)) = []"
  by (cases "failure c = None") (simp_all add: step_failed step_settings_snd amq_quiet)

text \<open>An emission goes through \<open>getLoadInstruction\<close>.\<close>

lemma step_via_gli:
  "snd (step c e) = [] \<or>
   (\<exists>c1. snd (step c e) = snd (getLoadInstruction c1)
      \<and> quantityFresh (fst (step c e)) = quantityFresh (fst (getLoadInstruction c1))
      \<and> quantityLatest (fst (step c e)) = quantityLatest (fst (getLoadInstruction c1))
      \<and> remaining (fst (step c e)) = remaining (fst (getLoadInstruction c1))
      \<and> minQ (fst (step c e)) = minQ c1
      \<and> started (fst (step c e)) = started c1)"
proof (cases "failure c = None")
  case False
  then show ?thesis by (simp add: step_failed)
next
  case True
  have other: ?thesis if o: "\<not> isSettingsEv e" "\<not> (\<exists>b. e = ContentEv b)"
  proof -
    from toAdd_cases [of "raw c" e] show ?thesis
    proof
      assume "getQuantityToAdd (snd (rawStep (raw c) e)) = []"
      then show ?thesis using True o by (simp add: step_other_quiet)
    next
      assume "\<exists>q. 0 < q \<and> getQuantityToAdd (snd (rawStep (raw c) e)) = [q]"
      then obtain q where q: "getQuantityToAdd (snd (rawStep (raw c) e)) = [q]" by blast
      let ?c1 = "computeRemainingQuantityToLoad (c\<lparr>raw := fst (rawStep (raw c) e)\<rparr>) q"
      have s: "step c e = getLoadInstruction ?c1" using True o q by (simp add: step_other_add)
      have "snd (step c e) = snd (getLoadInstruction ?c1)
        \<and> quantityFresh (fst (step c e)) = quantityFresh (fst (getLoadInstruction ?c1))
        \<and> quantityLatest (fst (step c e)) = quantityLatest (fst (getLoadInstruction ?c1))
        \<and> remaining (fst (step c e)) = remaining (fst (getLoadInstruction ?c1))
        \<and> minQ (fst (step c e)) = minQ ?c1
        \<and> started (fst (step c e)) = started ?c1"
        unfolding s by simp
      then show ?thesis by blast
    qed
  qed
  show ?thesis
  proof (cases e)
    case (SettingsEv s)
    let ?c0 = "c\<lparr>raw := rawSettings (raw c) s\<rparr>"
    let ?mn = "valueOf (minQuantity s)"
    let ?c1 = "?c0\<lparr>minQ := ?mn, quantityLatest := Some (remaining ?c0), quantityFresh := True\<rparr>"
    from amq_cases [of ?c0 ?mn] show ?thesis
    proof
      assume "applyMinQuantity ?c0 ?mn = (?c0\<lparr>minQ := ?mn\<rparr>, [])"
      then show ?thesis using True SettingsEv by (simp add: step_settings_snd)
    next
      assume a: "started ?c0 \<and> applyMinQuantity ?c0 ?mn = getLoadInstruction ?c1"
      then have "snd (step c e) = snd (getLoadInstruction ?c1)
        \<and> quantityFresh (fst (step c e)) = quantityFresh (fst (getLoadInstruction ?c1))
        \<and> quantityLatest (fst (step c e)) = quantityLatest (fst (getLoadInstruction ?c1))
        \<and> remaining (fst (step c e)) = remaining (fst (getLoadInstruction ?c1))
        \<and> minQ (fst (step c e)) = minQ ?c1
        \<and> started (fst (step c e)) = started ?c1"
        using True SettingsEv by (simp add: step_settings_fst step_settings_snd)
      then show ?thesis by blast
    qed
  next
    case (ContentEv b)
    show ?thesis
    proof (cases "started c \<and> advancesCursor e")
      case False
      with True ContentEv show ?thesis by (auto simp add: step_content getAfter_eq)
    next
      case acc: True
      let ?c1 = "c\<lparr>afterLatest := getLastContentSortAttribute b, afterFresh := True\<rparr>"
      have s: "step c e = getLoadInstruction ?c1"
        using True ContentEv acc by (simp add: step_content getAfter_eq)
      have "snd (step c e) = snd (getLoadInstruction ?c1)
        \<and> quantityFresh (fst (step c e)) = quantityFresh (fst (getLoadInstruction ?c1))
        \<and> quantityLatest (fst (step c e)) = quantityLatest (fst (getLoadInstruction ?c1))
        \<and> remaining (fst (step c e)) = remaining (fst (getLoadInstruction ?c1))
        \<and> minQ (fst (step c e)) = minQ ?c1
        \<and> started (fst (step c e)) = started ?c1"
        unfolding s by simp
      then show ?thesis by blast
    qed
  next
    case (ScrollOrResize ev)
    then show ?thesis using other by simp
  next
    case DelayElapsed
    then show ?thesis using other by simp
  qed
qed

text \<open>
  An emission uses the surplus up: afterwards the quantity held by \<open>combineUnique\<close> is
  fresh only if the remainder, which the feedback has produced, passes the floor.
\<close>

lemma gli_uses_surplus:
  assumes "snd (getLoadInstruction c) \<noteq> []"
  shows "(quantityFresh (fst (getLoadInstruction c)) \<longleftrightarrow>
            started c \<and> 0 < remaining (fst (getLoadInstruction c))
            \<and> filterStreamWithMinQuantity (minQ c) (remaining (fst (getLoadInstruction c)))) \<and>
         (quantityFresh (fst (getLoadInstruction c)) \<longrightarrow>
            quantityLatest (fst (getLoadInstruction c)) = Some (remaining (fst (getLoadInstruction c))))"
proof -
  from assms have e: "emits c" by (simp add: gli_out split: if_splits)
  show ?thesis
    using e by (simp add: gli_fst computeRemainingQuantityToLoad_def Let_def
        accumulateQuantities_def quantityIsPositive_def)
qed

lemma emission_uses_surplus:
  assumes "snd (step c e) \<noteq> []"
  shows "(quantityFresh (fst (step c e)) \<longleftrightarrow> passesFloor (fst (step c e))) \<and>
         (quantityFresh (fst (step c e)) \<longrightarrow>
            quantityLatest (fst (step c e)) = Some (remaining (fst (step c e))))"
proof -
  from step_via_gli [of c e] assms obtain c1 where
    c1: "snd (step c e) = snd (getLoadInstruction c1)"
      "quantityFresh (fst (step c e)) = quantityFresh (fst (getLoadInstruction c1))"
      "quantityLatest (fst (step c e)) = quantityLatest (fst (getLoadInstruction c1))"
      "remaining (fst (step c e)) = remaining (fst (getLoadInstruction c1))"
      "minQ (fst (step c e)) = minQ c1"
      "started (fst (step c e)) = started c1"
    by blast
  from assms c1(1) have "snd (getLoadInstruction c1) \<noteq> []" by simp
  from gli_uses_surplus [OF this] show ?thesis
    unfolding passesFloor_def c1(2-6) by simp
qed

lemma content_keeps_surplus:
  "\<not> quantityFresh c \<Longrightarrow>
   snd (step c (ContentEv b)) = [] \<and> \<not> quantityFresh (fst (step c (ContentEv b)))"
  by (cases "failure c = None")
     (simp_all add: step_failed step_content getAfter_eq gli_out gli_fst emits_def)

lemma cursors_alone_emit_nothing:
  "\<not> quantityFresh c \<Longrightarrow> list_all isContentEv es \<Longrightarrow> emitted c es = []"
proof (induction es arbitrary: c)
  case Nil
  then show ?case by simp
next
  case (Cons e es)
  from Cons.prems(2) obtain b where e: "e = ContentEv b" by (cases e) simp_all
  from Cons.prems(2) have r: "list_all isContentEv es" by simp
  from content_keeps_surplus [OF Cons.prems(1), of b] Cons.IH [OF _ r, of "fst (step c e)"] e
  show ?case by simp
qed

text \<open>The gate, for one event: both inputs must be fresh, of old or by the event.\<close>

lemma step_gate:
  assumes "failure c = None" "\<not> emits c"
  shows "snd (step c e) \<noteq> [] \<longleftrightarrow>
           (afterFresh c \<or> accepted c e) \<and> (quantityFresh c \<and> quantityLatest c \<noteq> None \<or> renews c e)"
proof -
  have other: ?thesis if o: "\<not> isSettingsEv e" "\<not> (\<exists>b. e = ContentEv b)"
  proof -
    have na: "\<not> accepted c e" using o by (cases e) (simp_all add: accepted_def)
    have r: "renews c e = (started c \<and> getQuantityToAdd (snd (rawStep (raw c) e)) \<noteq> []
           \<and> 0 < remaining c + sum_list (getQuantityToAdd (snd (rawStep (raw c) e)))
           \<and> filterStreamWithMinQuantity (minQ c)
                 (remaining c + sum_list (getQuantityToAdd (snd (rawStep (raw c) e)))))"
      using o by (cases e) (simp_all add: renews_def)
    from toAdd_cases [of "raw c" e] show ?thesis
    proof
      assume a: "getQuantityToAdd (snd (rawStep (raw c) e)) = []"
      then show ?thesis using assms o na r by (auto simp add: step_other_quiet emits_def)
    next
      assume "\<exists>q. 0 < q \<and> getQuantityToAdd (snd (rawStep (raw c) e)) = [q]"
      then obtain q where q: "getQuantityToAdd (snd (rawStep (raw c) e)) = [q]" by blast
      let ?c1 = "computeRemainingQuantityToLoad (c\<lparr>raw := fst (rawStep (raw c) e)\<rparr>) q"
      have s: "step c e = getLoadInstruction ?c1" using assms(1) o q by (simp add: step_other_add)
      show ?thesis
        unfolding s r q using assms(2) na
        by (auto simp add: gli_out emits_def computeRemainingQuantityToLoad_def Let_def
            accumulateQuantities_def quantityIsPositive_def)
    qed
  qed
  show ?thesis
  proof (cases e)
    case (SettingsEv s)
    let ?c0 = "c\<lparr>raw := rawSettings (raw c) s\<rparr>"
    let ?mn = "valueOf (minQuantity s)"
    have na: "\<not> accepted c e" using SettingsEv by (simp add: accepted_def)
    have r: "renews c e = (started c \<and> ?mn \<noteq> Undefined \<and> 0 < remaining c
           \<and> filterStreamWithMinQuantity ?mn (remaining c))"
      using SettingsEv by (simp add: renews_def)
    show ?thesis
    proof (cases "renews c e")
      case True
      with r have "applyMinQuantity ?c0 ?mn = getLoadInstruction
          (?c0\<lparr>minQ := ?mn, quantityLatest := Some (remaining ?c0), quantityFresh := True\<rparr>)"
        by (simp add: amq_replay)
      then show ?thesis using True assms SettingsEv na
        by (simp add: step_settings_snd gli_out emits_def)
    next
      case False
      with r have "applyMinQuantity ?c0 ?mn = (?c0\<lparr>minQ := ?mn\<rparr>, [])"
        by (simp add: amq_quiet)
      then show ?thesis using False assms SettingsEv na
        by (auto simp add: step_settings_snd emits_def)
    qed
  next
    case (ContentEv b)
    have r: "\<not> renews c e" using ContentEv by (simp add: renews_def)
    show ?thesis
    proof (cases "started c \<and> advancesCursor e")
      case False
      with assms ContentEv r show ?thesis
        by (auto simp add: step_content getAfter_eq accepted_def emits_def)
    next
      case True
      with assms ContentEv r show ?thesis
        by (auto simp add: step_content getAfter_eq accepted_def gli_out emits_def)
    qed
  next
    case (ScrollOrResize ev)
    then show ?thesis using other by simp
  next
    case DelayElapsed
    then show ?thesis using other by simp
  qed
qed

text \<open>While nothing is emitted, what has been renewed stays renewed.\<close>

lemma step_waits:
  assumes "failure c = None" "snd (step c e) = []"
  shows "(quantityFresh (fst (step c e)) \<longleftrightarrow> quantityFresh c \<or> renews c e) \<and>
         (afterFresh (fst (step c e)) \<longleftrightarrow> afterFresh c \<or> accepted c e)"
proof -
  have af: "afterFresh (fst (step c e)) \<longleftrightarrow> afterFresh c \<or> accepted c e"
    using step_out [of c e] assms(2) by auto
  have qf: "quantityFresh (fst (step c e)) \<longleftrightarrow> quantityFresh c \<or> renews c e"
  proof -
    have other: ?thesis if o: "\<not> isSettingsEv e" "\<not> (\<exists>b. e = ContentEv b)"
    proof -
      have r: "renews c e = (started c \<and> getQuantityToAdd (snd (rawStep (raw c) e)) \<noteq> []
           \<and> 0 < remaining c + sum_list (getQuantityToAdd (snd (rawStep (raw c) e)))
           \<and> filterStreamWithMinQuantity (minQ c)
                 (remaining c + sum_list (getQuantityToAdd (snd (rawStep (raw c) e)))))"
        using o by (cases e) (simp_all add: renews_def)
      from toAdd_cases [of "raw c" e] show ?thesis
      proof
        assume a: "getQuantityToAdd (snd (rawStep (raw c) e)) = []"
        then show ?thesis using assms o r by (simp add: step_other_quiet)
      next
        assume "\<exists>q. 0 < q \<and> getQuantityToAdd (snd (rawStep (raw c) e)) = [q]"
        then obtain q where q: "getQuantityToAdd (snd (rawStep (raw c) e)) = [q]" by blast
        let ?c1 = "computeRemainingQuantityToLoad (c\<lparr>raw := fst (rawStep (raw c) e)\<rparr>) q"
        have s: "step c e = getLoadInstruction ?c1" using assms(1) o q by (simp add: step_other_add)
        from assms(2) have ne: "\<not> emits ?c1" unfolding s by (simp add: gli_out split: if_splits)
        show ?thesis
          unfolding s r q using ne
          by (auto simp add: gli_quiet computeRemainingQuantityToLoad_def Let_def
              accumulateQuantities_def quantityIsPositive_def)
      qed
    qed
    show ?thesis
    proof (cases e)
      case (SettingsEv s)
      let ?c0 = "c\<lparr>raw := rawSettings (raw c) s\<rparr>"
      let ?mn = "valueOf (minQuantity s)"
      let ?c1 = "?c0\<lparr>minQ := ?mn, quantityLatest := Some (remaining ?c0), quantityFresh := True\<rparr>"
      have r: "renews c e = (started c \<and> ?mn \<noteq> Undefined \<and> 0 < remaining c
           \<and> filterStreamWithMinQuantity ?mn (remaining c))"
        using SettingsEv by (simp add: renews_def)
      show ?thesis
      proof (cases "renews c e")
        case True
        with r have a: "applyMinQuantity ?c0 ?mn = getLoadInstruction ?c1"
          by (simp add: amq_replay)
        from assms SettingsEv a have ne: "\<not> emits ?c1"
          by (simp add: step_settings_snd gli_out split: if_splits)
        show ?thesis using True assms(1) SettingsEv ne
          by (simp add: step_settings_fst a gli_quiet)
      next
        case False
        with r have "applyMinQuantity ?c0 ?mn = (?c0\<lparr>minQ := ?mn\<rparr>, [])"
          by (simp add: amq_quiet)
        then show ?thesis using False assms(1) SettingsEv
          by (simp add: step_settings_fst)
      qed
    next
      case (ContentEv b)
      have r: "\<not> renews c e" using ContentEv by (simp add: renews_def)
      show ?thesis
      proof (cases "started c \<and> advancesCursor e")
        case False
        with assms ContentEv r show ?thesis by (auto simp add: step_content getAfter_eq)
      next
        case True
        let ?c1 = "c\<lparr>afterLatest := getLastContentSortAttribute b, afterFresh := True\<rparr>"
        have s: "step c e = getLoadInstruction ?c1"
          using True assms(1) ContentEv by (simp add: step_content getAfter_eq)
        from assms(2) have ne: "\<not> emits ?c1" unfolding s by (simp add: gli_out split: if_splits)
        show ?thesis unfolding s using ne r by (simp add: gli_quiet)
      qed
    next
      case (ScrollOrResize ev)
      then show ?thesis using other by simp
    next
      case DelayElapsed
      then show ?thesis using other by simp
    qed
  qed
  from qf af show ?thesis by simp
qed

text \<open>\<open>combineUnique\<close> never holds two fresh values: it would have emitted them.\<close>

lemma never_both_fresh: "\<not> emits c \<Longrightarrow> \<not> emits (fst (step c e))"
proof (cases "snd (step c e) = []")
  case False
  then have "\<not> afterFresh (fst (step c e))" by (rule emission_uses_cursor)
  then show ?thesis by (simp add: emits_def)
next
  case True
  assume n: "\<not> emits c"
  show ?thesis
  proof (cases "failure c = None")
    case False
    with n show ?thesis by (simp add: step_failed)
  next
    case f: True
    show ?thesis
    proof
      assume em: "emits (fst (step c e))"
      from step_gate [OF f n, of e] True
      have g: "\<not> ((afterFresh c \<or> accepted c e) \<and> (quantityFresh c \<and> quantityLatest c \<noteq> None \<or> renews c e))"
        by simp
      from step_waits [OF f True] em
      have w: "(quantityFresh c \<or> renews c e) \<and> (afterFresh c \<or> accepted c e)"
        by (simp add: emits_def)
      from g w have q: "quantityFresh c" "quantityLatest c = None" "\<not> renews c e" by auto
      have "quantityLatest (fst (step c e)) = None"
      proof (cases e)
        case (SettingsEv s)
        let ?c0 = "c\<lparr>raw := rawSettings (raw c) s\<rparr>"
        let ?mn = "valueOf (minQuantity s)"
        from q(3) SettingsEv have "applyMinQuantity ?c0 ?mn = (?c0\<lparr>minQ := ?mn\<rparr>, [])"
          by (simp add: amq_quiet renews_def)
        then show ?thesis using f SettingsEv q(2) by (simp add: step_settings_fst)
      next
        case (ContentEv b)
        with f q(2) True show ?thesis
          by (simp add: step_content getAfter_eq gli_fst gli_out emits_def split: if_splits)
      next
        case (ScrollOrResize ev)
        then have o: "\<not> isSettingsEv e" "\<not> (\<exists>b. e = ContentEv b)" by simp_all
        from toAdd_cases [of "raw c" e] show ?thesis
        proof
          assume "getQuantityToAdd (snd (rawStep (raw c) e)) = []"
          then show ?thesis using f o q(2) by (simp add: step_other_quiet)
        next
          assume "\<exists>q. 0 < q \<and> getQuantityToAdd (snd (rawStep (raw c) e)) = [q]"
          then obtain x where x: "getQuantityToAdd (snd (rawStep (raw c) e)) = [x]" by blast
          let ?c1 = "computeRemainingQuantityToLoad (c\<lparr>raw := fst (rawStep (raw c) e)\<rparr>) x"
          have s: "step c e = getLoadInstruction ?c1" using f o x by (simp add: step_other_add)
          from True have ne: "\<not> emits ?c1" unfolding s by (simp add: gli_out split: if_splits)
          from q(3) o x have "\<not> (started c \<and> 0 < remaining c + x
              \<and> filterStreamWithMinQuantity (minQ c) (remaining c + x))"
            using ScrollOrResize by (simp add: renews_def)
          then show ?thesis unfolding s using ne q(2)
            by (auto simp add: gli_quiet computeRemainingQuantityToLoad_def Let_def
                accumulateQuantities_def quantityIsPositive_def)
        qed
      next
        case DelayElapsed
        then have o: "\<not> isSettingsEv e" "\<not> (\<exists>b. e = ContentEv b)" by simp_all
        from toAdd_cases [of "raw c" e] show ?thesis
        proof
          assume "getQuantityToAdd (snd (rawStep (raw c) e)) = []"
          then show ?thesis using f o q(2) by (simp add: step_other_quiet)
        next
          assume "\<exists>q. 0 < q \<and> getQuantityToAdd (snd (rawStep (raw c) e)) = [q]"
          then obtain x where x: "getQuantityToAdd (snd (rawStep (raw c) e)) = [x]" by blast
          let ?c1 = "computeRemainingQuantityToLoad (c\<lparr>raw := fst (rawStep (raw c) e)\<rparr>) x"
          have s: "step c e = getLoadInstruction ?c1" using f o x by (simp add: step_other_add)
          from True have ne: "\<not> emits ?c1" unfolding s by (simp add: gli_out split: if_splits)
          from q(3) o x have "\<not> (started c \<and> 0 < remaining c + x
              \<and> filterStreamWithMinQuantity (minQ c) (remaining c + x))"
            using DelayElapsed by (simp add: renews_def)
          then show ?thesis unfolding s using ne q(2)
            by (auto simp add: gli_quiet computeRemainingQuantityToLoad_def Let_def
                accumulateQuantities_def quantityIsPositive_def)
        qed
      qed
      with em show False by (simp add: emits_def)
    qed
  qed
qed

lemma never_both_fresh_run: "\<not> emits c \<Longrightarrow> \<not> emits (exec c es)"
  by (induction es arbitrary: c) (simp_all add: never_both_fresh)

text \<open>
  C2, as stated: a candidate pair of pending surplus and cursor is emitted unless it is
  identical to the pair emitted immediately before, so that a surplus that differs from
  the quantity emitted before is emitted even when the cursor has not advanced. It
  fails on the first test of the chained engine: after the instructions (4, []) and
  (3, [4.8]) the scroll of 50 makes the candidate (1, [4.8]), which differs from the
  pair emitted before, and nothing is emitted.
\<close>

theorem changed_surplus_is_held_back:
  "map (\<lambda>i. (quantity i, after i))
     (emitted chainedInit
        [settingsOf (Num 50) Undefined Undefined Undefined, scrollBy 200, fetched [48 / 10],
         scrollBy 150])
   = [(4, []), (3, [48 / 10])] \<and>
   dedupGate (Some (3, [48 / 10]))
     (remaining (exec chainedInit
        [settingsOf (Num 50) Undefined Undefined Undefined, scrollBy 200, fetched [48 / 10],
         scrollBy 150, scrollBy 50]),
      afterLatest (exec chainedInit
        [settingsOf (Num 50) Undefined Undefined Undefined, scrollBy 200, fetched [48 / 10],
         scrollBy 150, scrollBy 50])) \<and>
   snd (step (exec chainedInit
        [settingsOf (Num 50) Undefined Undefined Undefined, scrollBy 200, fetched [48 / 10],
         scrollBy 150]) (scrollBy 50)) = []"
  by (simp add: engine_defs Let_def dedupGate_def split_beta)

text \<open>
  C2, amended: a candidate pair is emitted when both the surplus and the cursor have
  been renewed since the previous emission, and only then. The cursor is renewed by a
  content batch that gives a cursor; the surplus is renewed when a value of the
  pending surplus passes the floor: after the raw engine has added a quantity, after
  an emission if the remainder passes the floor, or when a settings value with a
  minQuantity replaces the floor.
  \<^item> (1) An emission uses both up: afterwards the cursor is not fresh, and the surplus
    is fresh exactly if the remainder passes the floor; the fresh value is then the
    remainder.
  \<^item> (2) In a state that is not about to emit, an event emits exactly if the cursor is
    fresh or renewed by the event, and the surplus is fresh or renewed by the event.
  \<^item> (3) While nothing is emitted, what is fresh stays fresh and what the event renews
    becomes fresh; nothing else does.
  \<^item> (4) No state reached from the start holds two fresh values.
  \<^item> (5) While no content batch brings a new cursor nothing is emitted, whatever
    happens to the surplus.
  \<^item> (6) Content batches alone emit nothing, however many, when the surplus is not
    fresh; (7) in particular one batch.
  \<^item> (8) A new cursor that meets a fresh surplus emits the pair, capped by the ceiling;
    (9) so does a new surplus that passes the floor and meets a fresh cursor; (10) so
    does a settings value with a minQuantity that lets the pending surplus pass and
    meets a fresh cursor. (11) A settings value without minQuantity emits nothing.
\<close>

theorem emission_needs_new_surplus_and_new_cursor:
  "(snd (step c e) \<noteq> [] \<longrightarrow>
      \<not> afterFresh (fst (step c e)) \<and>
      (quantityFresh (fst (step c e)) \<longleftrightarrow> passesFloor (fst (step c e))) \<and>
      (quantityFresh (fst (step c e)) \<longrightarrow>
         quantityLatest (fst (step c e)) = Some (remaining (fst (step c e))))) \<and>
   (failure c = None \<and> \<not> emits c \<longrightarrow>
      (snd (step c e) \<noteq> [] \<longleftrightarrow>
         (afterFresh c \<or> accepted c e) \<and>
         (quantityFresh c \<and> quantityLatest c \<noteq> None \<or> renews c e))) \<and>
   (failure c = None \<and> snd (step c e) = [] \<longrightarrow>
      (quantityFresh (fst (step c e)) \<longleftrightarrow> quantityFresh c \<or> renews c e) \<and>
      (afterFresh (fst (step c e)) \<longleftrightarrow> afterFresh c \<or> accepted c e)) \<and>
   \<not> emits (exec chainedInit tr) \<and>
   (\<not> afterFresh c \<and> list_all (\<lambda>e. \<not> advancesCursor e) es \<longrightarrow> emitted c es = []) \<and>
   (\<not> quantityFresh c \<and> list_all isContentEv bs \<longrightarrow> emitted c bs = []) \<and>
   (\<not> quantityFresh c \<longrightarrow> snd (step c (ContentEv b)) = []) \<and>
   (failure c = None \<and> started c \<and> quantityFresh c \<and> quantityLatest c = Some q
      \<and> advancesCursor (ContentEv b) \<longrightarrow>
    snd (step c (ContentEv b)) =
      [capStreamWithMaxQuantity (maxQ c) \<lparr>quantity = q, after = getLastContentSortAttribute b\<rparr>]) \<and>
   (failure c = None \<and> started c \<and> afterFresh c \<and> \<not> isSettingsEv e \<and> \<not> advancesCursor e
      \<and> getQuantityToAdd (snd (rawStep (raw c) e)) = [q'] \<and> 0 < remaining c + q'
      \<and> filterStreamWithMinQuantity (minQ c) (remaining c + q') \<longrightarrow>
    snd (step c e) =
      [capStreamWithMaxQuantity (maxQ c) \<lparr>quantity = remaining c + q', after = afterLatest c\<rparr>]) \<and>
   (failure c = None \<and> started c \<and> afterFresh c \<and> valueOf (minQuantity s) \<noteq> Undefined
      \<and> 0 < remaining c \<and> filterStreamWithMinQuantity (valueOf (minQuantity s)) (remaining c) \<longrightarrow>
    snd (step c (SettingsEv s)) =
      [capStreamWithMaxQuantity (maxQ c) \<lparr>quantity = remaining c, after = afterLatest c\<rparr>]) \<and>
   (valueOf (minQuantity s) = Undefined \<longrightarrow> snd (step c (SettingsEv s)) = [])"
proof -
  have p1: "snd (step c e) \<noteq> [] \<longrightarrow>
      \<not> afterFresh (fst (step c e)) \<and>
      (quantityFresh (fst (step c e)) \<longleftrightarrow> passesFloor (fst (step c e))) \<and>
      (quantityFresh (fst (step c e)) \<longrightarrow>
         quantityLatest (fst (step c e)) = Some (remaining (fst (step c e))))"
    using emission_uses_cursor [of c e] emission_uses_surplus [of c e] by blast
  have p2: "failure c = None \<and> \<not> emits c \<longrightarrow>
      (snd (step c e) \<noteq> [] \<longleftrightarrow>
         (afterFresh c \<or> accepted c e) \<and>
         (quantityFresh c \<and> quantityLatest c \<noteq> None \<or> renews c e))"
    using step_gate [of c e] by blast
  have p3: "failure c = None \<and> snd (step c e) = [] \<longrightarrow>
      (quantityFresh (fst (step c e)) \<longleftrightarrow> quantityFresh c \<or> renews c e) \<and>
      (afterFresh (fst (step c e)) \<longleftrightarrow> afterFresh c \<or> accepted c e)"
    using step_waits [of c e] by blast
  have p4: "\<not> emits (exec chainedInit tr)"
    by (rule never_both_fresh_run) (simp add: emits_def chainedInit_def)
  have p5: "\<not> afterFresh c \<and> list_all (\<lambda>e. \<not> advancesCursor e) es \<longrightarrow> emitted c es = []"
    using run_needs_cursor [of c es] by blast
  have p6: "\<not> quantityFresh c \<and> list_all isContentEv bs \<longrightarrow> emitted c bs = []"
    using cursors_alone_emit_nothing [of c bs] by blast
  have p7: "\<not> quantityFresh c \<longrightarrow> snd (step c (ContentEv b)) = []"
    using cursor_alone_is_not_enough [of c b] by blast
  have p8: "failure c = None \<and> started c \<and> quantityFresh c \<and> quantityLatest c = Some q
      \<and> advancesCursor (ContentEv b) \<longrightarrow>
    snd (step c (ContentEv b)) =
      [capStreamWithMaxQuantity (maxQ c) \<lparr>quantity = q, after = getLastContentSortAttribute b\<rparr>]"
    using both_renewed_emit [of c q b] by blast
  have p9: "failure c = None \<and> started c \<and> afterFresh c \<and> \<not> isSettingsEv e \<and> \<not> advancesCursor e
      \<and> getQuantityToAdd (snd (rawStep (raw c) e)) = [q'] \<and> 0 < remaining c + q'
      \<and> filterStreamWithMinQuantity (minQ c) (remaining c + q') \<longrightarrow>
    snd (step c e) =
      [capStreamWithMaxQuantity (maxQ c) \<lparr>quantity = remaining c + q', after = afterLatest c\<rparr>]"
    using new_surplus_meets_cursor [of c e q'] by blast
  have p10: "failure c = None \<and> started c \<and> afterFresh c \<and> valueOf (minQuantity s) \<noteq> Undefined
      \<and> 0 < remaining c \<and> filterStreamWithMinQuantity (valueOf (minQuantity s)) (remaining c) \<longrightarrow>
    snd (step c (SettingsEv s)) =
      [capStreamWithMaxQuantity (maxQ c) \<lparr>quantity = remaining c, after = afterLatest c\<rparr>]"
    using new_floor_meets_cursor [of c s] by blast
  have p11: "valueOf (minQuantity s) = Undefined \<longrightarrow> snd (step c (SettingsEv s)) = []"
    using settings_without_floor_are_quiet [of s c] by blast
  show ?thesis
    by (intro conjI) (rule p1 p2 p3 p4 p5 p6 p7 p8 p9 p10 p11)+
qed

text \<open>
  The first test of the chained engine, continued, and a run in which the floor is
  lowered: the parts of the theorem along two runs.
\<close>

theorem emission_needs_new_surplus_and_new_cursor_witness:
  "emitted chainedInit
     [settingsOf (Num 50) Undefined Undefined Undefined, scrollBy 200, fetched [48 / 10],
      scrollBy 150, fetched [1], fetched [2], scrollBy 50, scrollBy 100, fetched [],
      fetched [355 / 100], fetched [3]]
   = [\<lparr>quantity = 4, after = []\<rparr>, \<lparr>quantity = 3, after = [48 / 10]\<rparr>,
      \<lparr>quantity = 1, after = [2]\<rparr>, \<lparr>quantity = 2, after = [355 / 100]\<rparr>] \<and>
   emitted chainedInit
     [settingsOf (Num 50) Undefined (Num 5) Undefined, scrollBy 100,
      settingsOf (Num 50) Undefined (Num 1) Undefined,
      settingsOf (Num 50) Undefined Undefined Undefined]
   = [\<lparr>quantity = 2, after = []\<rparr>]"
proof -
  let ?pre = "[settingsOf (Num 50) Undefined Undefined Undefined, scrollBy 200, fetched [48 / 10]]"
  let ?c0 = "exec chainedInit ?pre"
  let ?c1 = "fst (step ?c0 (scrollBy 150))"
  let ?mid1 = "[fetched [1], fetched [2]]"
  let ?c2 = "exec ?c1 ?mid1"
  let ?c3 = "fst (step ?c2 (scrollBy 50))"
  let ?mid2 = "[scrollBy 100, fetched []]"
  let ?c4 = "exec ?c3 ?mid2"
  let ?b = "[Content [355 / 100]]"
  let ?c5 = "fst (step ?c4 (ContentEv ?b))"
  let ?b' = "[Content [3]]"
  let ?s = "\<lparr>contentHeight = Some (Num 50), buffer = None, debounce = None, throttle = None,
       minQuantity = Some (Num 1), maxQuantity = None\<rparr>"
  let ?s' = "\<lparr>contentHeight = Some (Num 50), buffer = None, debounce = None, throttle = None,
       minQuantity = None, maxQuantity = None\<rparr>"
  note t = emission_needs_new_surplus_and_new_cursor
  have p0: "emitted chainedInit ?pre = [\<lparr>quantity = 4, after = []\<rparr>]"
    by (simp add: engine_defs Let_def split_beta)
  have st0: "failure ?c0 = None" "started ?c0" "afterFresh ?c0" "remaining ?c0 = 0"
    "minQ ?c0 = Undefined" "maxQ ?c0 = None" "afterLatest ?c0 = [48 / 10]"
    "getQuantityToAdd (snd (rawStep (raw ?c0) (scrollBy 150))) = [3]"
    by (simp_all add: engine_defs Let_def split_beta)
  have e0: "\<not> isSettingsEv (scrollBy 150)" "\<not> advancesCursor (scrollBy 150)"
    by (simp_all add: scrollBy_def)
  from t [where c = ?c0 and e = "scrollBy 150" and q' = 3,
      THEN conjunct2, THEN conjunct2, THEN conjunct2, THEN conjunct2, THEN conjunct2,
      THEN conjunct2, THEN conjunct2, THEN conjunct2, THEN conjunct1] st0 e0
  have o1: "snd (step ?c0 (scrollBy 150)) = [\<lparr>quantity = 3, after = [48 / 10]\<rparr>]"
    by (simp add: capStreamWithMaxQuantity_def filterStreamWithMinQuantity_def)
  then have ne1: "snd (step ?c0 (scrollBy 150)) \<noteq> []" by simp
  have r1: "remaining ?c1 = 0" by (simp add: engine_defs Let_def split_beta)
  then have "\<not> passesFloor ?c1" by (simp add: passesFloor_def)
  with t [where c = ?c0 and e = "scrollBy 150",
      THEN conjunct1] ne1 have used1: "\<not> quantityFresh ?c1" by blast
  have "list_all isContentEv ?mid1" by (simp add: fetched_def)
  with t [where c = ?c1 and bs = ?mid1,
      THEN conjunct2, THEN conjunct2, THEN conjunct2, THEN conjunct2, THEN conjunct2,
      THEN conjunct1] used1 have o2: "emitted ?c1 ?mid1 = []" by blast
  have st2: "failure ?c2 = None" "started ?c2" "afterFresh ?c2" "remaining ?c2 = 0"
    "minQ ?c2 = Undefined" "maxQ ?c2 = None" "afterLatest ?c2 = [2]"
    "getQuantityToAdd (snd (rawStep (raw ?c2) (scrollBy 50))) = [1]"
    by (simp_all add: engine_defs Let_def split_beta)
  have e2: "\<not> isSettingsEv (scrollBy 50)" "\<not> advancesCursor (scrollBy 50)"
    by (simp_all add: scrollBy_def)
  from t [where c = ?c2 and e = "scrollBy 50" and q' = 1,
      THEN conjunct2, THEN conjunct2, THEN conjunct2, THEN conjunct2, THEN conjunct2,
      THEN conjunct2, THEN conjunct2, THEN conjunct2, THEN conjunct1] st2 e2
  have o3: "snd (step ?c2 (scrollBy 50)) = [\<lparr>quantity = 1, after = [2]\<rparr>]"
    by (simp add: capStreamWithMaxQuantity_def filterStreamWithMinQuantity_def)
  then have "snd (step ?c2 (scrollBy 50)) \<noteq> []" by simp
  with t [where c = ?c2 and e = "scrollBy 50",
      THEN conjunct1] have used3: "\<not> afterFresh ?c3" by blast
  have quiet: "list_all (\<lambda>e. \<not> advancesCursor e) ?mid2"
    by (simp add: scrollBy_def fetched_def hasContent_def isValidSortAttribute_def
        getLastContentSortAttribute_def)
  from t [where c = ?c3 and es = ?mid2,
      THEN conjunct2, THEN conjunct2, THEN conjunct2, THEN conjunct2, THEN conjunct1] used3 quiet have o4: "emitted ?c3 ?mid2 = []" by blast
  have st4: "failure ?c4 = None" "started ?c4" "quantityFresh ?c4" "quantityLatest ?c4 = Some 2"
    "maxQ ?c4 = None"
    by (simp_all add: engine_defs Let_def split_beta)
  have adv: "advancesCursor (ContentEv ?b)"
    by (simp add: hasContent_def isValidSortAttribute_def getLastContentSortAttribute_def)
  from t [where c = ?c4 and b = ?b and q = 2,
      THEN conjunct2, THEN conjunct2, THEN conjunct2, THEN conjunct2, THEN conjunct2,
      THEN conjunct2, THEN conjunct2, THEN conjunct1] st4 adv
  have o5: "snd (step ?c4 (ContentEv ?b)) = [\<lparr>quantity = 2, after = [355 / 100]\<rparr>]"
    by (simp add: capStreamWithMaxQuantity_def getLastContentSortAttribute_def)
  have nf: "\<not> quantityFresh ?c5" by (simp add: engine_defs Let_def split_beta)
  from t [where c = ?c5 and b = ?b',
      THEN conjunct2, THEN conjunct2, THEN conjunct2, THEN conjunct2, THEN conjunct2,
      THEN conjunct2, THEN conjunct1] nf have o6: "snd (step ?c5 (ContentEv ?b')) = []" by blast
  have split: "[settingsOf (Num 50) Undefined Undefined Undefined, scrollBy 200, fetched [48 / 10],
      scrollBy 150, fetched [1], fetched [2], scrollBy 50, scrollBy 100, fetched [],
      fetched [355 / 100], fetched [3]]
     = ?pre @ [scrollBy 150] @ ?mid1 @ [scrollBy 50] @ ?mid2 @ [ContentEv ?b] @ [ContentEv ?b']"
    by (simp add: fetched_def)
  have run1: "emitted chainedInit
     [settingsOf (Num 50) Undefined Undefined Undefined, scrollBy 200, fetched [48 / 10],
      scrollBy 150, fetched [1], fetched [2], scrollBy 50, scrollBy 100, fetched [],
      fetched [355 / 100], fetched [3]]
   = [\<lparr>quantity = 4, after = []\<rparr>, \<lparr>quantity = 3, after = [48 / 10]\<rparr>,
      \<lparr>quantity = 1, after = [2]\<rparr>, \<lparr>quantity = 2, after = [355 / 100]\<rparr>]"
    unfolding split emitted_append exec_append
    using p0 o1 o2 o3 o4 o5 o6 by simp
  let ?pre' = "[settingsOf (Num 50) Undefined (Num 5) Undefined, scrollBy 100]"
  let ?d = "exec chainedInit ?pre'"
  let ?d1 = "fst (step ?d (SettingsEv ?s))"
  have q0: "emitted chainedInit ?pre' = []"
    by (simp add: engine_defs Let_def split_beta)
  have sd: "failure ?d = None" "started ?d" "afterFresh ?d" "remaining ?d = 2"
    "maxQ ?d = None" "afterLatest ?d = []" "\<not> quantityFresh ?d"
    by (simp_all add: engine_defs Let_def split_beta)
  have fl: "valueOf (minQuantity ?s) \<noteq> Undefined"
    "filterStreamWithMinQuantity (valueOf (minQuantity ?s)) 2"
    by (simp_all add: valueOf_def filterStreamWithMinQuantity_def js_ge_def)
  from t [where c = ?d and s = ?s,
      THEN conjunct2, THEN conjunct2, THEN conjunct2, THEN conjunct2, THEN conjunct2,
      THEN conjunct2, THEN conjunct2, THEN conjunct2, THEN conjunct2, THEN conjunct1] sd fl
  have q1: "snd (step ?d (SettingsEv ?s)) = [\<lparr>quantity = 2, after = []\<rparr>]"
    by (simp add: capStreamWithMaxQuantity_def)
  have "valueOf (minQuantity ?s') = Undefined" by (simp add: valueOf_def)
  with t [where c = ?d1 and s = ?s',
      THEN conjunct2, THEN conjunct2, THEN conjunct2, THEN conjunct2, THEN conjunct2,
      THEN conjunct2, THEN conjunct2, THEN conjunct2, THEN conjunct2, THEN conjunct2] have q2: "snd (step ?d1 (SettingsEv ?s')) = []" by blast
  have split': "[settingsOf (Num 50) Undefined (Num 5) Undefined, scrollBy 100,
      settingsOf (Num 50) Undefined (Num 1) Undefined,
      settingsOf (Num 50) Undefined Undefined Undefined]
     = ?pre' @ [SettingsEv ?s] @ [SettingsEv ?s']"
    by (simp add: settingsOf_def given_def)
  have run2: "emitted chainedInit
     [settingsOf (Num 50) Undefined (Num 5) Undefined, scrollBy 100,
      settingsOf (Num 50) Undefined (Num 1) Undefined,
      settingsOf (Num 50) Undefined Undefined Undefined]
   = [\<lparr>quantity = 2, after = []\<rparr>]"
    unfolding split' emitted_append exec_append
    using q0 q1 q2 by simp
  from run1 run2 show ?thesis by (rule conjI)
qed


text \<open>
  C3, as stated: for every trace, no two consecutive instructions have the same cursor
  and the same quantity. It fails when two content batches end with the same sort key
  (a fetch that brought nothing new): the second batch counts as a new cursor, and the
  instruction of quantity 5 after the cursor [7] is emitted twice in a row.
\<close>

theorem repeated_cursor_repeats_instruction:
  "fst (getChainedLoadInstruction
     [settingsOf (Num 1) Undefined Undefined Undefined, scrollBy 5, fetched [7], scrollBy 5,
      fetched [7], scrollBy 5])
   = [\<lparr>quantity = 5, after = []\<rparr>, \<lparr>quantity = 5, after = [7]\<rparr>, \<lparr>quantity = 5, after = [7]\<rparr>] \<and>
   consecutiveRepeat (fst (getChainedLoadInstruction
     [settingsOf (Num 1) Undefined Undefined Undefined, scrollBy 5, fetched [7], scrollBy 5,
      fetched [7], scrollBy 5]))"
  by (simp add: engine_defs Let_def split_beta)

lemma distinct_no_repeat: "distinct (map after is) \<Longrightarrow> \<not> consecutiveRepeat is"
  by (induction "is" rule: consecutiveRepeat.induct) auto

lemma cursorValues_step:
  "cursorValues (e # es) =
     (if advancesCursor e
      then (case e of ContentEv b \<Rightarrow> getLastContentSortAttribute b | _ \<Rightarrow> []) # cursorValues es
      else cursorValues es)"
  by (cases e) simp_all

lemma step_afterLatest_adv:
  "accepted c e \<Longrightarrow>
   afterLatest (fst (step c e)) = (case e of ContentEv b \<Rightarrow> getLastContentSortAttribute b | _ \<Rightarrow> [])"
  using step_afterLatest [of c e] by (cases e) (simp_all add: accepted_def)

lemma step_afterLatest_same:
  "\<not> accepted c e \<Longrightarrow> afterLatest (fst (step c e)) = afterLatest c"
  using step_afterLatest [of c e] by (cases e) simp_all

lemma distinct_cursors_run:
  "distinct (cursorValues es) \<Longrightarrow>
   (afterFresh c \<Longrightarrow> afterLatest c \<notin> set (cursorValues es)) \<Longrightarrow>
   distinct (map after (emitted c es)) \<and>
   set (map after (emitted c es)) \<subseteq> (if afterFresh c then {afterLatest c} else {}) \<union> set (cursorValues es)"
proof (induction es arbitrary: c)
  case Nil
  then show ?case by simp
next
  case (Cons e es)
  let ?c' = "fst (step c e)"
  let ?k = "case e of ContentEv b \<Rightarrow> getLastContentSortAttribute b | _ \<Rightarrow> []"
  have dist: "distinct (cursorValues es)" using Cons.prems(1) by (simp add: cursorValues_step split: if_splits)
  have sub: "set (cursorValues es) \<subseteq> set (cursorValues (e # es))"
    by (auto simp add: cursorValues_step)
  have knew: "?k \<notin> set (cursorValues es)" "?k \<in> set (cursorValues (e # es))" if "advancesCursor e"
    using that Cons.prems(1) by (simp_all add: cursorValues_step)
  have fresh': "afterLatest ?c' \<notin> set (cursorValues es)" if f: "afterFresh ?c'"
  proof (cases "accepted c e")
    case True
    then have "advancesCursor e" by (simp add: accepted_def)
    with True show ?thesis using knew by (simp add: step_afterLatest_adv)
  next
    case False
    with f step_out [of c e] have "afterFresh c" by auto
    with Cons.prems(2) sub have "afterLatest c \<notin> set (cursorValues es)" by auto
    with False show ?thesis by (simp add: step_afterLatest_same)
  qed
  note ih = Cons.IH [OF dist fresh']
  from step_out [of c e] show ?case
  proof
    assume a: "snd (step c e) = [] \<and> afterFresh ?c' = (afterFresh c \<or> accepted c e)"
    have "(if afterFresh ?c' then {afterLatest ?c'} else {}) \<union> set (cursorValues es)
          \<subseteq> (if afterFresh c then {afterLatest c} else {}) \<union> set (cursorValues (e # es))"
    proof (cases "accepted c e")
      case True
      then have adv: "advancesCursor e" by (simp add: accepted_def)
      from True adv knew sub show ?thesis by (auto simp add: step_afterLatest_adv)
    next
      case False
      with a sub show ?thesis by (auto simp add: step_afterLatest_same)
    qed
    then have incl: "(if afterFresh ?c' then {afterLatest ?c'} else {}) \<union> set (cursorValues es)
          \<subseteq> (if afterFresh c then {afterLatest c} else {}) \<union> set (cursorValues (e # es))" .
    have d: "distinct (map after (emitted ?c' es))" using ih by (rule conjunct1)
    have s: "set (map after (emitted ?c' es))
           \<subseteq> (if afterFresh ?c' then {afterLatest ?c'} else {}) \<union> set (cursorValues es)"
      using ih by (rule conjunct2)
    have eq: "emitted c (e # es) = emitted ?c' es" using a by simp
    from s incl have "set (map after (emitted ?c' es))
          \<subseteq> (if afterFresh c then {afterLatest c} else {}) \<union> set (cursorValues (e # es))"
      by (rule subset_trans)
    with d show ?case by (simp only: eq)
  next
    assume a: "length (snd (step c e)) = 1 \<and> map after (snd (step c e)) = [afterLatest ?c']
        \<and> \<not> afterFresh ?c' \<and> (afterFresh c \<or> accepted c e)"
    then have nf: "\<not> afterFresh ?c'" by simp
    have d: "distinct (map after (emitted ?c' es))" using ih by (rule conjunct1)
    have "set (map after (emitted ?c' es))
           \<subseteq> (if afterFresh ?c' then {afterLatest ?c'} else {}) \<union> set (cursorValues es)"
      using ih by (rule conjunct2)
    with nf have s: "set (map after (emitted ?c' es)) \<subseteq> set (cursorValues es)" by simp
    have notin: "afterLatest ?c' \<notin> set (cursorValues es)"
      and isin: "afterLatest ?c' \<in> (if afterFresh c then {afterLatest c} else {}) \<union> set (cursorValues (e # es))"
    proof -
      show "afterLatest ?c' \<notin> set (cursorValues es)"
      proof (cases "accepted c e")
        case True
        then have "advancesCursor e" by (simp add: accepted_def)
        with True knew show ?thesis by (simp add: step_afterLatest_adv)
      next
        case False
        with a have "afterFresh c" by simp
        with Cons.prems(2) sub have "afterLatest c \<notin> set (cursorValues es)" by auto
        with False show ?thesis by (simp add: step_afterLatest_same)
      qed
      show "afterLatest ?c' \<in> (if afterFresh c then {afterLatest c} else {}) \<union> set (cursorValues (e # es))"
      proof (cases "accepted c e")
        case True
        then have "advancesCursor e" by (simp add: accepted_def)
        with True knew show ?thesis by (simp add: step_afterLatest_adv)
      next
        case False
        with a have "afterFresh c" by simp
        with False show ?thesis by (simp add: step_afterLatest_same)
      qed
    qed
    have m: "map after (emitted c (e # es)) = afterLatest ?c' # map after (emitted ?c' es)"
      using a by simp
    have d': "distinct (afterLatest ?c' # map after (emitted ?c' es))"
    proof -
      from s notin have "afterLatest ?c' \<notin> set (map after (emitted ?c' es))" by blast
      with d show ?thesis by simp
    qed
    have s': "set (afterLatest ?c' # map after (emitted ?c' es))
          \<subseteq> (if afterFresh c then {afterLatest c} else {}) \<union> set (cursorValues (e # es))"
    proof -
      from s sub have "set (map after (emitted ?c' es)) \<subseteq> set (cursorValues (e # es))"
        by (rule subset_trans)
      then have "set (map after (emitted ?c' es))
          \<subseteq> (if afterFresh c then {afterLatest c} else {}) \<union> set (cursorValues (e # es))"
        by (rule le_supI2)
      with isin show ?thesis by (simp only: list.set insert_subset)
    qed
    from d' s' show ?case by (simp only: m)
  qed
qed

lemma cursorValues_nonempty: "[] \<notin> set (cursorValues es)"
proof (induction es)
  case Nil
  then show ?case by simp
next
  case (Cons e es)
  then show ?case by (cases e) (auto simp add: isValidSortAttribute_def)
qed

text \<open>
  C3, amended: when the cursors given by the content batches of the trace are pairwise
  distinct, no two instructions carry the same cursor; in particular no two consecutive
  instructions have the same cursor and the same quantity.
\<close>

theorem distinct_cursors_distinct_instructions:
  assumes "distinct (cursorValues es)"
  shows "distinct (map after (emitted chainedInit es)) \<and> \<not> consecutiveRepeat (emitted chainedInit es)"
proof -
  have "afterLatest chainedInit \<notin> set (cursorValues es)"
    using cursorValues_nonempty [of es] by (simp add: chainedInit_def)
  from distinct_cursors_run [OF assms this] show ?thesis by (simp add: distinct_no_repeat)
qed

text \<open>The trace of the counterexample with distinct cursors.\<close>

theorem distinct_cursors_distinct_instructions_witness:
  "distinct (map after (emitted chainedInit
     [settingsOf (Num 1) Undefined Undefined Undefined, scrollBy 5, fetched [7], scrollBy 5,
      fetched [8], scrollBy 5])) \<and>
   \<not> consecutiveRepeat (emitted chainedInit
     [settingsOf (Num 1) Undefined Undefined Undefined, scrollBy 5, fetched [7], scrollBy 5,
      fetched [8], scrollBy 5])"
proof -
  have "distinct (cursorValues
     [settingsOf (Num 1) Undefined Undefined Undefined, scrollBy 5, fetched [7], scrollBy 5,
      fetched [8], scrollBy 5])"
    by (simp add: settingsOf_def scrollBy_def fetched_def hasContent_def isValidSortAttribute_def
        getLastContentSortAttribute_def given_def)
  from distinct_cursors_distinct_instructions [OF this] show ?thesis .
qed



section \<open>The cursor\<close>

text \<open>
  C6, as stated: the cursor of every instruction is the last item's sort key of the
  most recent non-empty content batch received so far, and every non-empty batch
  updates the cursor. It fails for a batch whose last item has an empty sort key:
  \<open>isValidSortAttribute\<close> drops it, and the instruction keeps the cursor [5] of the
  batch before.
\<close>

theorem empty_sort_key_keeps_cursor:
  "snd (step (exec chainedInit
          [settingsOf (Num 1) Undefined Undefined Undefined, fetched [5], fetched []])
        (scrollBy 3))
   = [\<lparr>quantity = 3, after = [5]\<rparr>] \<and>
   specCursor []
     ([settingsOf (Num 1) Undefined Undefined Undefined, fetched [5], fetched []] @ [scrollBy 3])
   = [] \<and>
   \<not> list_all
       (\<lambda>i. after i = specCursor []
          ([settingsOf (Num 1) Undefined Undefined Undefined, fetched [5], fetched []] @ [scrollBy 3]))
       (snd (step (exec chainedInit
          [settingsOf (Num 1) Undefined Undefined Undefined, fetched [5], fetched []])
        (scrollBy 3)))"
  by (simp add: engine_defs Let_def split_beta)

lemma step_started:
  "started (fst (step c e)) = (started c \<or> (failure c = None \<and> isSettingsEv e))"
proof (cases "failure c = None")
  case False
  then show ?thesis by (auto simp add: step_failed)
next
  case True
  show ?thesis
  proof (cases e)
    case (SettingsEv s)
    with True show ?thesis by (simp add: step_settings_fst)
  next
    case (ContentEv b)
    with True show ?thesis by (simp add: step_content getAfter_eq)
  next
    case (ScrollOrResize ev)
    with True toAdd_cases [of "raw c" e] show ?thesis
      by (auto simp add: step_other_quiet step_other_add)
  next
    case DelayElapsed
    with True toAdd_cases [of "raw c" e] show ?thesis
      by (auto simp add: step_other_quiet step_other_add)
  qed
qed

lemma failure_sticky: "failure c \<noteq> None \<Longrightarrow> failure (fst (step c e)) \<noteq> None"
  by (simp add: step_failed)

lemma cursorFrom_step:
  "failure c = None \<Longrightarrow>
   cursorFrom (started c) (afterLatest c) (e # es)
     = cursorFrom (started (fst (step c e))) (afterLatest (fst (step c e))) es"
  by (cases e)
     (auto simp add: step_started step_afterLatest accepted_def hasContent_def
        isValidSortAttribute_def getLastContentSortAttribute_def)

lemma cursorFrom_exec:
  "failure (exec c es) = None \<Longrightarrow>
   cursorFrom (started c) (afterLatest c) (es @ es')
     = cursorFrom (started (exec c es)) (afterLatest (exec c es)) es'"
proof (induction es arbitrary: c)
  case Nil
  then show ?case by simp
next
  case (Cons e es)
  have f: "failure c = None"
  proof (rule ccontr)
    assume "failure c \<noteq> None"
    then have "exec c (e # es) = c" by (rule exec_failed)
    with Cons.prems \<open>failure c \<noteq> None\<close> show False by simp
  qed
  from Cons.prems have "failure (exec (fst (step c e)) es) = None" by simp
  from Cons.IH [OF this] cursorFrom_step [OF f, of e "es @ es'"] show ?case by simp
qed

text \<open>
  C6, amended: the cursor of every instruction is the last item's sort key of the most
  recent content batch that is not empty and whose last item has a sort key that is
  not empty, among the batches received since the first settings value (when the
  engine starts to listen to the content); it is the empty tuple if there is no such
  batch. The cursor is updated on every such batch.
\<close>

theorem after_is_latest_valid_cursor:
  "list_all (\<lambda>i. after i = cursorOf (es @ [e])) (snd (step (exec chainedInit es) e))"
proof (cases "failure (exec chainedInit es) = None")
  case True
  let ?c = "exec chainedInit es"
  have "cursorOf (es @ [e]) = cursorFrom (started ?c) (afterLatest ?c) [e]"
    using cursorFrom_exec [OF True, of "[e]"] by (simp add: cursorOf_def chainedInit_def)
  also have "\<dots> = afterLatest (fst (step ?c e))"
    using cursorFrom_step [OF True, of e "[]"] by simp
  finally have l: "afterLatest (fst (step ?c e)) = cursorOf (es @ [e])" by simp
  from step_out [of ?c e] show ?thesis
  proof
    assume "snd (step ?c e) = [] \<and> afterFresh (fst (step ?c e)) = (afterFresh ?c \<or> accepted ?c e)"
    then show ?thesis by simp
  next
    assume "length (snd (step ?c e)) = 1 \<and>
      map after (snd (step ?c e)) = [afterLatest (fst (step ?c e))] \<and>
      \<not> afterFresh (fst (step ?c e)) \<and> (afterFresh ?c \<or> accepted ?c e)"
    then have "map after (snd (step ?c e)) = [cursorOf (es @ [e])]"
      using l by simp
    then show ?thesis by (cases "snd (step ?c e)") (auto simp add: list_all_iff)
  qed
next
  case False
  then show ?thesis by (simp add: step_failed)
qed

text \<open>
  A batch before the settings and a batch with an empty sort key are both passed over.
\<close>

theorem after_is_latest_valid_cursor_witness:
  "cursorOf [fetched [9], settingsOf (Num 1) Undefined Undefined Undefined, fetched [5], fetched [],
     scrollBy 3] = [5] \<and>
   map after (snd (step (exec chainedInit
      [fetched [9], settingsOf (Num 1) Undefined Undefined Undefined, fetched [5], fetched []])
      (scrollBy 3))) = [[5]]"
proof -
  let ?es = "[fetched [9], settingsOf (Num 1) Undefined Undefined Undefined, fetched [5], fetched []]"
  have c: "cursorOf (?es @ [scrollBy 3]) = [5]"
    by (simp add: cursorOf_def fetched_def settingsOf_def scrollBy_def given_def)
  have l: "length (snd (step (exec chainedInit ?es) (scrollBy 3))) = 1"
    by (simp add: engine_defs Let_def split_beta)
  from after_is_latest_valid_cursor [of ?es "scrollBy 3"] l c
  have "map after (snd (step (exec chainedInit ?es) (scrollBy 3))) = [[5]]"
    by (cases "snd (step (exec chainedInit ?es) (scrollBy 3))") (simp_all del: exec.simps)
  with c show ?thesis by simp
qed



section \<open>The ceiling\<close>


















end
